theory Spec2Isabelle
  imports Main
begin

section \<open>ascii.hpp: character classification\<close>

text \<open>
  A C++ \<open>char\<close> is modelled by the 8-bit type \<^typ>\<open>char\<close>; \<open>of_char c\<close> is its code in
  \<open>0..255\<close>. Every comparison of ascii.hpp is against a bound below 128, so the outcome is
  the same whether the platform's \<open>char\<close> is signed or unsigned.
\<close>

definition is_digit :: "char \<Rightarrow> bool" where
  "is_digit character \<longleftrightarrow>
     (of_char character :: nat) \<ge> of_char CHR ''0'' \<and> (of_char character :: nat) \<le> of_char CHR ''9''"

definition is_alphabetic_lowercase :: "char \<Rightarrow> bool" where
  "is_alphabetic_lowercase character \<longleftrightarrow>
     (of_char character :: nat) \<ge> of_char CHR ''a'' \<and> (of_char character :: nat) \<le> of_char CHR ''z''"

definition is_alphabetic_uppercase :: "char \<Rightarrow> bool" where
  "is_alphabetic_uppercase character \<longleftrightarrow>
     (of_char character :: nat) \<ge> of_char CHR ''A'' \<and> (of_char character :: nat) \<le> of_char CHR ''Z''"

definition to_lowercase :: "char \<Rightarrow> char" where
  "to_lowercase character =
     (if is_alphabetic_uppercase character then char_of ((of_char character :: nat) + 32) else character)"

definition is_alphabetic :: "char \<Rightarrow> bool" where
  "is_alphabetic character \<longleftrightarrow> is_alphabetic_uppercase character \<or> is_alphabetic_lowercase character"

definition is_alphanumeric :: "char \<Rightarrow> bool" where
  "is_alphanumeric character \<longleftrightarrow> is_alphabetic character \<or> is_digit character"

section \<open>media_type.hpp: namespace rfc6838\<close>

subsection \<open>Restricted names and the error type\<close>

definition is_restricted_name :: "string \<Rightarrow> bool" where
  "is_restricted_name string =
     list_all (\<lambda>character. is_alphanumeric character \<or>
        character \<in> set [CHR ''!'', CHR ''#'', CHR ''$'', CHR ''&'', CHR ''-'', CHR ''^'', CHR ''_'',
                          CHR ''.'', CHR ''+'']) string"

definition is_modified_restricted_name :: "string \<Rightarrow> bool" where
  "is_modified_restricted_name string =
     list_all (\<lambda>character. is_alphanumeric character \<or>
        character \<in> set [CHR ''!'', CHR ''#'', CHR ''$'', CHR ''&'', CHR ''-'', CHR ''^'', CHR ''_''])
       string"

text \<open>\<open>parsing_error\<close> is the one exception type; it carries its message.\<close>

datatype parsing_error = Parsing_error (what: string)

subsection \<open>Component classes\<close>

text \<open>
  Each component class owns one private \<open>std::string\<close>. A throwing constructor becomes a
  function into \<open>parsing_error + _\<close>, with one branch for every \<open>throw\<close> in source order.
  \<open>front()\<close> and \<open>back()\<close> are only reached behind the emptiness check, where they are
  \<open>hd\<close> and \<open>last\<close>.
\<close>

datatype rfc6838_type = Rfc6838_type (type_string: string)

definition new_type :: "string \<Rightarrow> parsing_error + rfc6838_type" where
  "new_type v =
     (if v = [] \<or> length v > 127 then
        Inl (Parsing_error ''media type: top-level type: lenght required to be [1..127] characters'')
      else if \<not> is_alphanumeric (hd v) then
        Inl (Parsing_error ''media type: top-level type: first character required to be alphanumeric'')
      else if \<not> is_restricted_name v then
        Inl (Parsing_error ''media type: top-level type: containing non-valid characters'')
      else Inr (Rfc6838_type (map to_lowercase v)))"

datatype rfc6838_tree = Rfc6838_tree (tree_string: string)

definition new_tree :: "string \<Rightarrow> parsing_error + rfc6838_tree" where
  "new_tree v =
     (if v = [] then Inr (Rfc6838_tree v)
      else if length v < 2 \<or> length v > 127 then
        Inl (Parsing_error ''media type: tree: lenght required to be [2..127] characters'')
      else if \<not> is_alphanumeric (hd v) then
        Inl (Parsing_error ''media type: tree: first character required to be alphanumeric'')
      else if last v \<noteq> CHR ''.'' then
        Inl (Parsing_error (''media type: tree: last character required to be '.'' @ [CHR 0x27]))
      else if \<not> is_modified_restricted_name (butlast v) then
        Inl (Parsing_error ''media type: tree: containing non-valid characters'')
      else Inr (Rfc6838_tree (map to_lowercase v)))"

definition standard :: "rfc6838_tree \<Rightarrow> bool" where
  "standard t \<longleftrightarrow> tree_string t = []"

datatype rfc6838_subtype = Rfc6838_subtype (subtype_string: string)

definition new_subtype :: "string \<Rightarrow> parsing_error + rfc6838_subtype" where
  "new_subtype v =
     (if v = [] \<or> length v > 127 then
        Inl (Parsing_error ''media type: subtype: lenght required to be [1..127] characters'')
      else if \<not> is_alphanumeric (hd v) then
        Inl (Parsing_error ''media type: subtype: first character required to be alphanumeric'')
      else if \<not> is_restricted_name v then
        Inl (Parsing_error ''media type: subtype: containing non-valid characters'')
      else Inr (Rfc6838_subtype (map to_lowercase v)))"

datatype rfc6838_suffix = Rfc6838_suffix (suffix_string: string)

text \<open>In the suffix constructor \<open>substring\<close> is the value without its first character.\<close>

definition new_suffix :: "string \<Rightarrow> parsing_error + rfc6838_suffix" where
  "new_suffix v =
     (if length v < 2 \<or> length v > 127 then
        Inl (Parsing_error ''media type: suffix: lenght required to be [2..127] characters'')
      else if hd v \<noteq> CHR ''+'' then
        Inl (Parsing_error (''media type: suffix: first character required to be '+'' @ [CHR 0x27]))
      else
        (let substring = tl v in
         if \<not> is_alphanumeric (hd substring) then
           Inl (Parsing_error ''media type: suffix: second character required to be alphanumeric'')
         else if \<not> is_modified_restricted_name substring then
           Inl (Parsing_error ''media type: suffix: containing non-valid characters'')
         else Inr (Rfc6838_suffix (map to_lowercase v))))"

datatype parameter_name = Parameter_name (parameter_name_string: string)

definition new_parameter_name :: "string \<Rightarrow> parsing_error + parameter_name" where
  "new_parameter_name v =
     (if v = [] \<or> length v > 127 then
        Inl (Parsing_error ''media type: parameter name: lenght required to be [1..127] characters'')
      else if \<not> is_alphanumeric (hd v) then
        Inl (Parsing_error ''media type: parameter name: first character required to be alphanumeric'')
      else if \<not> is_restricted_name v then
        Inl (Parsing_error ''media type: parameter name: containing non-valid characters'')
      else Inr (Parameter_name (map to_lowercase v)))"

text \<open>
  \<open>parameter_value\<close> keeps its input verbatim in \<open>backend\<close>. \<open>inner_string\<close> is the view
  \<open>[begin + 1, end - 1)\<close>; it is only used when \<open>backend\<close> starts with a double quote
  (\<open>CHR 0x22\<close>) and has at least two characters.
\<close>

datatype parameter_value = Parameter_value (backend: string)

definition inner_string :: "string \<Rightarrow> string" where
  "inner_string b = butlast (tl b)"

definition new_parameter_value :: "string \<Rightarrow> parsing_error + parameter_value" where
  "new_parameter_value b =
     (if b = [] \<or> length b > 127 then
        Inl (Parsing_error ''media type: parameter value: lenght required to be [1..127] characters'')
      else if hd b = CHR 0x22 then
        (if length b = 1 \<or> last b \<noteq> CHR 0x22 then
           Inl (Parsing_error
             (''media type: parameter value: quoted string missing trailing '' @ [CHR 0x27, CHR 0x22, CHR 0x27]))
         else if length b = 2 then
           Inl (Parsing_error ''media type: parameter value: quoted string empty'')
         else if CHR 0x22 \<in> set (inner_string b) then
           Inl (Parsing_error
             (''media type: parameter value: quoted string containing '' @ [CHR 0x27, CHR 0x22, CHR 0x27]))
         else Inr (Parameter_value b))
      else if \<not> is_restricted_name b then
        Inl (Parsing_error ''media type: parameter value: non-quoted string containing non-valid characters'')
      else Inr (Parameter_value b))"

text \<open>
  \<open>value_view\<close> reads \<open>backend.front()\<close>; every constructed value has a non-empty
  \<open>backend\<close>, and the model takes the bare branch on the (unreachable) empty one.
\<close>

definition value_view :: "parameter_value \<Rightarrow> string" where
  "value_view p =
     (case backend p of
        [] \<Rightarrow> backend p
      | front # _ \<Rightarrow> if front = CHR 0x22 then inner_string (backend p) else backend p)"

definition parameter_value_eq :: "parameter_value \<Rightarrow> parameter_value \<Rightarrow> bool" where
  "parameter_value_eq first second \<longleftrightarrow> value_view first = value_view second"

subsection \<open>The aggregate and its parser\<close>

record media_type =
  mt_type :: rfc6838_type
  mt_tree :: rfc6838_tree
  mt_subtype :: rfc6838_subtype
  mt_suffix :: "rfc6838_suffix option"

text \<open>The four-argument constructor; the suffix argument defaults to the empty optional.\<close>

definition make_media_type ::
  "rfc6838_type \<Rightarrow> rfc6838_tree \<Rightarrow> rfc6838_subtype \<Rightarrow> rfc6838_suffix option \<Rightarrow> media_type" where
  "make_media_type ty tr st sf = \<lparr>mt_type = ty, mt_tree = tr, mt_subtype = st, mt_suffix = sf\<rparr>"

text \<open>
  The parser narrows a \<open>string_view\<close> step by step. Each lambda of the source is a function
  from the current view to its result and the narrowed view. \<open>std::ranges::find\<close> is
  \<open>takeWhile\<close>/\<open>dropWhile\<close> on the view: the match is at the end exactly when
  \<open>dropWhile\<close> leaves nothing.
\<close>

definition strip_parameters :: "string \<Rightarrow> string" where
  "strip_parameters input = takeWhile (\<lambda>c. c \<noteq> CHR '';'') input"

definition parser_type :: "string \<Rightarrow> parsing_error + (string \<times> string)" where
  "parser_type input =
     (let rest = dropWhile (\<lambda>c. c \<noteq> CHR ''/'') input in
      if rest = [] then
        Inl (Parsing_error ''media type: parsing: missing delimiter '/' after type'')
      else Inr (takeWhile (\<lambda>c. c \<noteq> CHR ''/'') input, tl rest))"

text \<open>
  In the tree lambda \<open>match == begin\<close> is tested first; it holds when the view starts with
  a dot and also when the view is empty (then \<open>match\<close> is \<open>end\<close>, which is \<open>begin\<close>).
\<close>

definition parser_tree :: "string \<Rightarrow> parsing_error + (string \<times> string)" where
  "parser_tree input =
     (let label = takeWhile (\<lambda>c. c \<noteq> CHR ''.'') input;
          rest = dropWhile (\<lambda>c. c \<noteq> CHR ''.'') input in
      if label = [] then
        Inl (Parsing_error (''media type: parsing: missing tree between '/' and '.'' @ [CHR 0x27]))
      else if rest = [] then Inr ([], input)
      else Inr (label @ [CHR ''.''], tl rest))"

text \<open>
  \<open>std::ranges::find_last\<close> yields the subrange starting at the last occurrence, or the
  empty subrange at the end; \<open>find_last\<close> is the offset of its start.
\<close>

definition find_last :: "string \<Rightarrow> char \<Rightarrow> nat" where
  "find_last input c =
     (if c \<in> set input then length input - Suc (length (takeWhile (\<lambda>x. x \<noteq> c) (rev input)))
      else length input)"

definition parser_subtype :: "string \<Rightarrow> string \<times> string" where
  "parser_subtype input =
     (let match = find_last input CHR ''+'' in (take match input, drop match input))"

text \<open>
  The suffix object is built right after the split, ahead of the other three components;
  these are then built left to right in the braced initialiser of the result.
\<close>

definition parser :: "string \<Rightarrow> parsing_error + media_type" where
  "parser input0 =
     (let input = strip_parameters input0 in
      case parser_type input of
        Inl e \<Rightarrow> Inl e
      | Inr (ty, input1) \<Rightarrow>
          (case parser_tree input1 of
             Inl e \<Rightarrow> Inl e
           | Inr (tr, input2) \<Rightarrow>
               (case parser_subtype input2 of
                  (st, input3) \<Rightarrow>
                    (case (if input3 = [] then Inr None else map_sum id Some (new_suffix input3)) of
                       Inl e \<Rightarrow> Inl e
                     | Inr sf \<Rightarrow>
                         (case new_type ty of
                            Inl e \<Rightarrow> Inl e
                          | Inr ty' \<Rightarrow>
                              (case new_tree tr of
                                 Inl e \<Rightarrow> Inl e
                               | Inr tr' \<Rightarrow>
                                   (case new_subtype st of
                                      Inl e \<Rightarrow> Inl e
                                    | Inr st' \<Rightarrow> Inr (make_media_type ty' tr' st' sf))))))))"

definition new_media_type :: "string \<Rightarrow> parsing_error + media_type" where
  "new_media_type input = parser input"

definition media_type_string :: "media_type \<Rightarrow> string" where
  "media_type_string m =
     type_string (mt_type m) @ ''/'' @ tree_string (mt_tree m) @ subtype_string (mt_subtype m)
       @ (case mt_suffix m of Some s \<Rightarrow> suffix_string s | None \<Rightarrow> [])"

text \<open>\<open>without_suffix() const&\<close> rebuilds the value; \<open>without_suffix() &&\<close> resets the field.\<close>

definition without_suffix :: "media_type \<Rightarrow> media_type" where
  "without_suffix m = make_media_type (mt_type m) (mt_tree m) (mt_subtype m) None"

definition without_suffix_rvalue :: "media_type \<Rightarrow> media_type" where
  "without_suffix_rvalue m = m\<lparr>mt_suffix := None\<rparr>"

section \<open>The second encoding: class \<open>common_good::media_type\<close> with nested component classes\<close>

text \<open>
  Here the character test takes the list of extra characters as an argument, the
  constructors have no \<open>else\<close> branches, and the parser's lambdas build the validated
  components themselves, so a component is validated as soon as it is cut off.
\<close>

definition allowed_characters :: "string \<Rightarrow> char list \<Rightarrow> bool" where
  "allowed_characters string list =
     list_all (\<lambda>character. is_alphanumeric character \<or> character \<in> set list) string"

datatype media_top_type = Media_top_type (top_type_value: string)

definition new_media_top_type :: "string \<Rightarrow> parsing_error + media_top_type" where
  "new_media_top_type v =
     (if v = [] \<or> length v > 127 then
        Inl (Parsing_error ''media type: top-level type: lenght required to be [1..127] characters'')
      else if \<not> is_alphanumeric (hd v) then
        Inl (Parsing_error ''media type: top-level type: first character required to be alphanumeric'')
      else if \<not> allowed_characters v
          [CHR ''!'', CHR ''#'', CHR ''$'', CHR ''&'', CHR ''-'', CHR ''^'', CHR ''_'', CHR ''.'', CHR ''+''] then
        Inl (Parsing_error ''media type: top-level type: containing non-valid characters'')
      else Inr (Media_top_type (map to_lowercase v)))"

datatype media_tree = Media_tree (tree_value: string)

definition new_media_tree :: "string \<Rightarrow> parsing_error + media_tree" where
  "new_media_tree v =
     (if v = [] then Inr (Media_tree v)
      else if length v < 2 \<or> length v > 127 then
        Inl (Parsing_error ''media type: tree: lenght required to be [2..127] characters'')
      else if \<not> is_alphanumeric (hd v) then
        Inl (Parsing_error ''media type: tree: first character required to be alphanumeric'')
      else if last v \<noteq> CHR ''.'' then
        Inl (Parsing_error (''media type: tree: last character required to be '.'' @ [CHR 0x27]))
      else if \<not> allowed_characters (butlast v)
          [CHR ''!'', CHR ''#'', CHR ''$'', CHR ''&'', CHR ''-'', CHR ''^'', CHR ''_''] then
        Inl (Parsing_error ''media type: tree: containing non-valid characters'')
      else Inr (Media_tree (map to_lowercase v)))"

datatype media_subtype = Media_subtype (subtype_value: string)

definition new_media_subtype :: "string \<Rightarrow> parsing_error + media_subtype" where
  "new_media_subtype v =
     (if v = [] \<or> length v > 127 then
        Inl (Parsing_error ''media type: subtype: lenght required to be [1..127] characters'')
      else if \<not> is_alphanumeric (hd v) then
        Inl (Parsing_error ''media type: subtype: first character required to be alphanumeric'')
      else if \<not> allowed_characters v
          [CHR ''!'', CHR ''#'', CHR ''$'', CHR ''&'', CHR ''-'', CHR ''^'', CHR ''_'', CHR ''.'', CHR ''+''] then
        Inl (Parsing_error ''media type: subtype: containing non-valid characters'')
      else Inr (Media_subtype (map to_lowercase v)))"

datatype media_suffix = Media_suffix (suffix_value: string)

text \<open>\<open>value[1]\<close> is read behind the length check, where it is the head of the tail.\<close>

definition new_media_suffix :: "string \<Rightarrow> parsing_error + media_suffix" where
  "new_media_suffix v =
     (if length v < 2 \<or> length v > 127 then
        Inl (Parsing_error ''media type: suffix: lenght required to be [2..127] characters'')
      else if hd v \<noteq> CHR ''+'' then
        Inl (Parsing_error (''media type: suffix: first character required to be '+'' @ [CHR 0x27]))
      else if \<not> is_alphanumeric (hd (tl v)) then
        Inl (Parsing_error ''media type: suffix: second character required to be alphanumeric'')
      else if \<not> allowed_characters (tl v)
          [CHR ''!'', CHR ''#'', CHR ''$'', CHR ''&'', CHR ''-'', CHR ''^'', CHR ''_''] then
        Inl (Parsing_error ''media type: suffix: containing non-valid characters'')
      else Inr (Media_suffix (map to_lowercase v)))"

record nested_media_type =
  nmt_type :: media_top_type
  nmt_tree :: media_tree
  nmt_subtype :: media_subtype
  nmt_suffix :: "media_suffix option"

definition make_nested_media_type ::
  "media_top_type \<Rightarrow> media_tree \<Rightarrow> media_subtype \<Rightarrow> media_suffix option \<Rightarrow> nested_media_type" where
  "make_nested_media_type ty tr st sf = \<lparr>nmt_type = ty, nmt_tree = tr, nmt_subtype = st, nmt_suffix = sf\<rparr>"

text \<open>
  In the type lambda \<open>match\<close> is the view up to the first slash; it ends where the input
  ends exactly when there is no slash. \<open>remove_prefix\<close> is \<open>drop\<close>.
\<close>

definition nested_parser_type :: "string \<Rightarrow> parsing_error + (media_top_type \<times> string)" where
  "nested_parser_type input =
     (let match = takeWhile (\<lambda>c. c \<noteq> CHR ''/'') input in
      if length match = length input then
        Inl (Parsing_error ''media type: parsing: missing delimiter '/' after type'')
      else
        (case new_media_top_type match of
           Inl e \<Rightarrow> Inl e
         | Inr ty \<Rightarrow> Inr (ty, drop (length match + 1) input)))"

definition nested_parser_tree :: "string \<Rightarrow> parsing_error + (media_tree \<times> string)" where
  "nested_parser_tree input =
     (let label = takeWhile (\<lambda>c. c \<noteq> CHR ''.'') input in
      if label = [] then
        Inl (Parsing_error (''media type: parsing: missing tree between '/' and '.'' @ [CHR 0x27]))
      else if length label = length input then
        (case new_media_tree [] of Inl e \<Rightarrow> Inl e | Inr tr \<Rightarrow> Inr (tr, input))
      else
        (let result = take (length label + 1) input in
         case new_media_tree result of
           Inl e \<Rightarrow> Inl e
         | Inr tr \<Rightarrow> Inr (tr, drop (length result) input)))"

definition nested_parser_subtype :: "string \<Rightarrow> parsing_error + (media_subtype \<times> string)" where
  "nested_parser_subtype input =
     (let match = take (find_last input CHR ''+'') input in
      case new_media_subtype match of
        Inl e \<Rightarrow> Inl e
      | Inr st \<Rightarrow> Inr (st, drop (length match) input))"

definition nested_parser :: "string \<Rightarrow> parsing_error + nested_media_type" where
  "nested_parser input0 =
     (let input = takeWhile (\<lambda>c. c \<noteq> CHR '';'') input0 in
      case nested_parser_type input of
        Inl e \<Rightarrow> Inl e
      | Inr (ty, input1) \<Rightarrow>
          (case nested_parser_tree input1 of
             Inl e \<Rightarrow> Inl e
           | Inr (tr, input2) \<Rightarrow>
               (case nested_parser_subtype input2 of
                  Inl e \<Rightarrow> Inl e
                | Inr (st, input3) \<Rightarrow>
                    (case (if input3 = [] then Inr None else map_sum id Some (new_media_suffix input3)) of
                       Inl e \<Rightarrow> Inl e
                     | Inr sf \<Rightarrow> Inr (make_nested_media_type ty tr st sf)))))"

definition new_nested_media_type :: "string \<Rightarrow> parsing_error + nested_media_type" where
  "new_nested_media_type input = nested_parser input"

definition nested_media_type_string :: "nested_media_type \<Rightarrow> string" where
  "nested_media_type_string m =
     top_type_value (nmt_type m) @ ''/'' @ tree_value (nmt_tree m) @ subtype_value (nmt_subtype m)
       @ (case nmt_suffix m of Some s \<Rightarrow> suffix_value s | None \<Rightarrow> [])"

section \<open>Properties of the character functions\<close>

lemmas ascii_defs = is_digit_def is_alphabetic_lowercase_def is_alphabetic_uppercase_def
  is_alphabetic_def is_alphanumeric_def to_lowercase_def

lemma of_char_to_lowercase:
  "is_alphabetic_uppercase c \<Longrightarrow> (of_char (to_lowercase c) :: nat) = of_char c + 32"
  by (simp add: to_lowercase_def is_alphabetic_uppercase_def)

lemma is_alphanumeric_to_lowercase [simp]: "is_alphanumeric (to_lowercase c) = is_alphanumeric c"
proof (cases "is_alphabetic_uppercase c")
  case True
  then have "(of_char (to_lowercase c) :: nat) = of_char c + 32" by (rule of_char_to_lowercase)
  with True show ?thesis
    by (simp add: is_alphanumeric_def is_alphabetic_def is_digit_def is_alphabetic_lowercase_def
        is_alphabetic_uppercase_def)
next
  case False
  then show ?thesis by (simp add: to_lowercase_def)
qed

lemma to_lowercase_eq_punct:
  "\<not> is_alphabetic_lowercase p \<Longrightarrow> \<not> is_alphabetic_uppercase p \<Longrightarrow> to_lowercase c = p \<longleftrightarrow> c = p"
proof (cases "is_alphabetic_uppercase c")
  case True
  assume p: "\<not> is_alphabetic_lowercase p" "\<not> is_alphabetic_uppercase p"
  from True have "(of_char (to_lowercase c) :: nat) = of_char c + 32" by (rule of_char_to_lowercase)
  with True have "is_alphabetic_lowercase (to_lowercase c)"
    by (simp add: is_alphabetic_lowercase_def is_alphabetic_uppercase_def)
  with p True show ?thesis by auto
next
  case False
  then show ?thesis by (simp add: to_lowercase_def)
qed

lemma to_lowercase_idem [simp]: "to_lowercase (to_lowercase c) = to_lowercase c"
proof (cases "is_alphabetic_uppercase c")
  case True
  then have "(of_char (to_lowercase c) :: nat) = of_char c + 32" by (rule of_char_to_lowercase)
  with True have "\<not> is_alphabetic_uppercase (to_lowercase c)"
    by (simp add: is_alphabetic_uppercase_def)
  then show ?thesis by (simp add: to_lowercase_def)
next
  case False
  then show ?thesis by (simp add: to_lowercase_def)
qed

lemma to_lowercase_eq_special [simp]:
  "to_lowercase c = CHR ''!'' \<longleftrightarrow> c = CHR ''!''"
  "to_lowercase c = CHR ''#'' \<longleftrightarrow> c = CHR ''#''"
  "to_lowercase c = CHR ''$'' \<longleftrightarrow> c = CHR ''$''"
  "to_lowercase c = CHR ''&'' \<longleftrightarrow> c = CHR ''&''"
  "to_lowercase c = CHR ''-'' \<longleftrightarrow> c = CHR ''-''"
  "to_lowercase c = CHR ''^'' \<longleftrightarrow> c = CHR ''^''"
  "to_lowercase c = CHR ''_'' \<longleftrightarrow> c = CHR ''_''"
  "to_lowercase c = CHR ''.'' \<longleftrightarrow> c = CHR ''.''"
  "to_lowercase c = CHR ''+'' \<longleftrightarrow> c = CHR ''+''"
  "to_lowercase c = CHR ''/'' \<longleftrightarrow> c = CHR ''/''"
  "to_lowercase c = CHR '';'' \<longleftrightarrow> c = CHR '';''"
  by (rule to_lowercase_eq_punct; simp add: is_alphabetic_lowercase_def is_alphabetic_uppercase_def)+

section \<open>The validators see only the lowercase form\<close>

lemma is_restricted_name_map_to_lowercase [simp]:
  "is_restricted_name (map to_lowercase v) = is_restricted_name v"
  by (simp add: is_restricted_name_def list.pred_map comp_def)

lemma is_modified_restricted_name_map_to_lowercase [simp]:
  "is_modified_restricted_name (map to_lowercase v) = is_modified_restricted_name v"
  by (simp add: is_modified_restricted_name_def list.pred_map comp_def)

lemma new_type_map_to_lowercase: "new_type (map to_lowercase v) = new_type v"
  by (simp add: new_type_def hd_map)

lemma new_subtype_map_to_lowercase: "new_subtype (map to_lowercase v) = new_subtype v"
  by (simp add: new_subtype_def hd_map)

lemma new_tree_map_to_lowercase: "new_tree (map to_lowercase v) = new_tree v"
  by (simp add: new_tree_def hd_map last_map map_butlast [symmetric])

lemma new_suffix_map_to_lowercase: "new_suffix (map to_lowercase v) = new_suffix v"
proof (cases "length v < 2")
  case True
  then show ?thesis by (simp add: new_suffix_def)
next
  case False
  then have "v \<noteq> []" "tl v \<noteq> []" by (cases v; auto)+
  then show ?thesis
    by (simp add: new_suffix_def hd_map map_tl [symmetric] Let_def)
qed

section \<open>The parser sees only the lowercase form\<close>

lemma special_eq_to_lowercase [simp]:
  "CHR ''.'' = to_lowercase c \<longleftrightarrow> c = CHR ''.''"
  "CHR ''+'' = to_lowercase c \<longleftrightarrow> c = CHR ''+''"
  "CHR ''/'' = to_lowercase c \<longleftrightarrow> c = CHR ''/''"
  "CHR '';'' = to_lowercase c \<longleftrightarrow> c = CHR '';''"
  by (subst eq_commute, simp)+

lemma takeWhile_map_to_lowercase:
  assumes "\<And>c. to_lowercase c = p \<longleftrightarrow> c = p"
  shows "takeWhile (\<lambda>c. c \<noteq> p) (map to_lowercase v) = map to_lowercase (takeWhile (\<lambda>c. c \<noteq> p) v)"
  by (simp add: takeWhile_map comp_def assms)

lemma dropWhile_map_to_lowercase:
  assumes "\<And>c. to_lowercase c = p \<longleftrightarrow> c = p"
  shows "dropWhile (\<lambda>c. c \<noteq> p) (map to_lowercase v) = map to_lowercase (dropWhile (\<lambda>c. c \<noteq> p) v)"
  by (simp add: dropWhile_map comp_def assms)

lemma strip_parameters_map_to_lowercase:
  "strip_parameters (map to_lowercase v) = map to_lowercase (strip_parameters v)"
  by (simp add: strip_parameters_def takeWhile_map_to_lowercase)

lemma parser_type_map_to_lowercase:
  "parser_type (map to_lowercase v) =
     map_sum id (map_prod (map to_lowercase) (map to_lowercase)) (parser_type v)"
  by (auto simp: parser_type_def Let_def takeWhile_map_to_lowercase dropWhile_map_to_lowercase map_tl)

lemma parser_tree_map_to_lowercase:
  "parser_tree (map to_lowercase v) =
     map_sum id (map_prod (map to_lowercase) (map to_lowercase)) (parser_tree v)"
  by (auto simp: parser_tree_def Let_def takeWhile_map_to_lowercase dropWhile_map_to_lowercase map_tl)

lemma plus_in_map_to_lowercase: "CHR ''+'' \<in> set (map to_lowercase v) \<longleftrightarrow> CHR ''+'' \<in> set v"
  by (auto simp: image_iff)

lemma find_last_map_to_lowercase:
  "find_last (map to_lowercase v) CHR ''+'' = find_last v CHR ''+''"
  unfolding find_last_def plus_in_map_to_lowercase
  by (simp add: rev_map takeWhile_map_to_lowercase del: set_map)

lemma parser_subtype_map_to_lowercase:
  "parser_subtype (map to_lowercase v) = map_prod (map to_lowercase) (map to_lowercase) (parser_subtype v)"
  by (simp add: parser_subtype_def Let_def find_last_map_to_lowercase take_map drop_map)

lemma parser_map_to_lowercase: "parser (map to_lowercase v) = parser v"
  unfolding parser_def Let_def strip_parameters_map_to_lowercase parser_type_map_to_lowercase
  by (auto split: sum.splits prod.splits
      simp: parser_tree_map_to_lowercase parser_subtype_map_to_lowercase
        new_type_map_to_lowercase new_tree_map_to_lowercase new_subtype_map_to_lowercase
        new_suffix_map_to_lowercase)

section \<open>Case-insensitive construction\<close>

text \<open>
  C7. Normalization makes construction case-insensitive. Two strings are ASCII-case
  variants of each other when they lowercase to the same string. For the four core
  components (top-level type, tree, subtype, suffix) and for the media type itself, the
  constructor returns the same result on both variants: a valid string and its variant give
  equal values (equality of the stored lowercase strings), and an invalid one fails in the
  same way on both. In particular the media types built from \<open>TEXT/PLAIN\<close> and from
  \<open>text/plain\<close> exist and are equal.
\<close>

theorem construction_case_insensitive:
  assumes "map to_lowercase t = map to_lowercase s"
  shows "new_type t = new_type s \<and> new_tree t = new_tree s \<and> new_subtype t = new_subtype s
    \<and> new_suffix t = new_suffix s \<and> new_media_type t = new_media_type s
    \<and> new_media_type ''TEXT/PLAIN'' = new_media_type ''text/plain''
    \<and> new_media_type ''text/plain'' =
        Inr (make_media_type (Rfc6838_type ''text'') (Rfc6838_tree []) (Rfc6838_subtype ''plain'') None)"
proof -
  have "new_type t = new_type s"
    using new_type_map_to_lowercase [of t] new_type_map_to_lowercase [of s] assms by simp
  moreover have "new_tree t = new_tree s"
    using new_tree_map_to_lowercase [of t] new_tree_map_to_lowercase [of s] assms by simp
  moreover have "new_subtype t = new_subtype s"
    using new_subtype_map_to_lowercase [of t] new_subtype_map_to_lowercase [of s] assms by simp
  moreover have "new_suffix t = new_suffix s"
    using new_suffix_map_to_lowercase [of t] new_suffix_map_to_lowercase [of s] assms by simp
  moreover have "new_media_type t = new_media_type s"
    using parser_map_to_lowercase [of t] parser_map_to_lowercase [of s] assms
    by (simp add: new_media_type_def)
  moreover have "new_media_type ''TEXT/PLAIN'' = new_media_type ''text/plain''"
    by code_simp
  moreover have "new_media_type ''text/plain'' =
        Inr (make_media_type (Rfc6838_type ''text'') (Rfc6838_tree []) (Rfc6838_subtype ''plain'') None)"
    by code_simp
  ultimately show ?thesis by simp
qed

theorem construction_case_insensitive_witness:
  "map to_lowercase ''tEXT'' = map to_lowercase ''Text''
   \<and> new_type ''tEXT'' = Inr (Rfc6838_type ''text'') \<and> new_type ''Text'' = Inr (Rfc6838_type ''text'')
   \<and> map to_lowercase ''VnD.'' = map to_lowercase ''vnd.''
   \<and> new_tree ''VnD.'' = Inr (Rfc6838_tree ''vnd.'') \<and> new_tree ''vnd.'' = Inr (Rfc6838_tree ''vnd.'')
   \<and> map to_lowercase ''+JSON'' = map to_lowercase ''+json''
   \<and> new_suffix ''+JSON'' = Inr (Rfc6838_suffix ''+json'') \<and> new_suffix ''+json'' = Inr (Rfc6838_suffix ''+json'')
   \<and> new_subtype ''tEXT'' = new_subtype ''Text''"
proof -
  have a: "map to_lowercase ''tEXT'' = map to_lowercase ''Text''" by code_simp
  have b: "map to_lowercase ''VnD.'' = map to_lowercase ''vnd.''" by code_simp
  have c: "map to_lowercase ''+JSON'' = map to_lowercase ''+json''" by code_simp
  have e: "new_type ''Text'' = Inr (Rfc6838_type ''text'')" by code_simp
  have f: "new_tree ''vnd.'' = Inr (Rfc6838_tree ''vnd.'')" by code_simp
  have g: "new_suffix ''+json'' = Inr (Rfc6838_suffix ''+json'')" by code_simp
  note A = construction_case_insensitive [OF a]
  note B = construction_case_insensitive [OF b]
  note C = construction_case_insensitive [OF c]
  have e': "new_type ''tEXT'' = Inr (Rfc6838_type ''text'')"
    using A [THEN conjunct1] e by (rule trans)
  have f': "new_tree ''VnD.'' = Inr (Rfc6838_tree ''vnd.'')"
    using B [THEN conjunct2, THEN conjunct1] f by (rule trans)
  have g': "new_suffix ''+JSON'' = Inr (Rfc6838_suffix ''+json'')"
    using C [THEN conjunct2, THEN conjunct2, THEN conjunct2, THEN conjunct1] g by (rule trans)
  have h: "new_subtype ''tEXT'' = new_subtype ''Text''"
    by (rule A [THEN conjunct2, THEN conjunct2, THEN conjunct1])
  show ?thesis
    by (intro conjI a b c e f g e' f' g' h)
qed

section \<open>What the parsing steps and the validators return\<close>

lemma new_type_Inr: "new_type v = Inr t \<Longrightarrow> type_string t = map to_lowercase v"
  by (auto simp: new_type_def split: if_splits)

lemma new_tree_Inr: "new_tree v = Inr t \<Longrightarrow> tree_string t = map to_lowercase v"
  by (auto simp: new_tree_def split: if_splits)

lemma new_subtype_Inr: "new_subtype v = Inr t \<Longrightarrow> subtype_string t = map to_lowercase v"
  by (auto simp: new_subtype_def split: if_splits)

lemma new_suffix_Inr: "new_suffix v = Inr t \<Longrightarrow> suffix_string t = map to_lowercase v"
  by (auto simp: new_suffix_def Let_def split: if_splits)

lemma parser_type_Inr:
  "parser_type input = Inr (ty, rest) \<Longrightarrow> input = ty @ CHR ''/'' # rest \<and> CHR ''/'' \<notin> set ty"
proof -
  assume a: "parser_type input = Inr (ty, rest)"
  let ?d = "dropWhile (\<lambda>c. c \<noteq> CHR ''/'') input"
  from a have d: "?d \<noteq> []" and ty: "ty = takeWhile (\<lambda>c. c \<noteq> CHR ''/'') input" and r: "rest = tl ?d"
    by (auto simp: parser_type_def Let_def split: if_splits)
  from d have "hd ?d = CHR ''/''" using hd_dropWhile [of "\<lambda>c. c \<noteq> CHR ''/''" input] by simp
  with d r have "?d = CHR ''/'' # rest" by (cases ?d) auto
  with ty have "input = ty @ CHR ''/'' # rest"
    using takeWhile_dropWhile_id [of "\<lambda>c. c \<noteq> CHR ''/''" input] by simp
  moreover from ty have "CHR ''/'' \<notin> set ty" by (auto dest: set_takeWhileD)
  ultimately show ?thesis by simp
qed

lemma parser_tree_Inr: "parser_tree input = Inr (tr, rest) \<Longrightarrow> input = tr @ rest"
proof -
  assume a: "parser_tree input = Inr (tr, rest)"
  let ?d = "dropWhile (\<lambda>c. c \<noteq> CHR ''.'') input"
  let ?t = "takeWhile (\<lambda>c. c \<noteq> CHR ''.'') input"
  show ?thesis
  proof (cases "?d = []")
    case True
    with a show ?thesis by (auto simp: parser_tree_def Let_def split: if_splits)
  next
    case False
    with a have tr: "tr = ?t @ [CHR ''.'']" and r: "rest = tl ?d"
      by (auto simp: parser_tree_def Let_def split: if_splits)
    from False have "hd ?d = CHR ''.''" using hd_dropWhile [of "\<lambda>c. c \<noteq> CHR ''.''" input] by simp
    with False r have "?d = CHR ''.'' # rest" by (cases ?d) auto
    with tr show ?thesis
      using takeWhile_dropWhile_id [of "\<lambda>c. c \<noteq> CHR ''.''" input] by simp
  qed
qed

lemma parser_subtype_eq: "parser_subtype input = (st, rest) \<Longrightarrow> input = st @ rest"
  by (auto simp: parser_subtype_def Let_def)

lemma strip_parameters_id: "CHR '';'' \<notin> set s \<Longrightarrow> strip_parameters s = s"
  by (auto simp: strip_parameters_def)

lemma parser_Inr_string:
  assumes "parser s = Inr m"
  shows "media_type_string m = map to_lowercase (strip_parameters s)"
proof -
  from assms obtain ty input1 where p1: "parser_type (strip_parameters s) = Inr (ty, input1)"
    by (auto simp: parser_def Let_def split: sum.splits)
  from assms p1 obtain tr input2 where p2: "parser_tree input1 = Inr (tr, input2)"
    by (auto simp: parser_def Let_def split: sum.splits)
  obtain st input3 where p3: "parser_subtype input2 = (st, input3)" by (cases "parser_subtype input2")
  from assms p1 p2 p3 obtain sf ty' tr' st' where
    sf: "(if input3 = [] then Inr None else map_sum id Some (new_suffix input3)) = Inr sf"
    and ty': "new_type ty = Inr ty'" and tr': "new_tree tr = Inr tr'" and st': "new_subtype st = Inr st'"
    and m: "m = make_media_type ty' tr' st' sf"
    by (auto simp: parser_def Let_def split: sum.splits)
  have sfs: "(case sf of Some x \<Rightarrow> suffix_string x | None \<Rightarrow> []) = map to_lowercase input3"
  proof (cases "input3 = []")
    case True
    with sf show ?thesis by simp
  next
    case False
    with sf obtain x where "new_suffix input3 = Inr x" "sf = Some x"
      by (cases "new_suffix input3") auto
    then show ?thesis by (simp add: new_suffix_Inr)
  qed
  have "strip_parameters s = ty @ CHR ''/'' # tr @ st @ input3"
    using parser_type_Inr [OF p1] parser_tree_Inr [OF p2] parser_subtype_eq [OF p3] by simp
  then show ?thesis
    using sfs new_type_Inr [OF ty'] new_tree_Inr [OF tr'] new_subtype_Inr [OF st'] m
    by (simp add: media_type_string_def make_media_type_def)
qed

section \<open>The second encoding in terms of the first\<close>

lemma new_media_top_type_eq:
  "new_media_top_type v = (case new_type v of Inl e \<Rightarrow> Inl e | Inr t \<Rightarrow> Inr (Media_top_type (type_string t)))"
  by (simp add: new_media_top_type_def new_type_def allowed_characters_def is_restricted_name_def)

lemma new_media_tree_eq:
  "new_media_tree v = (case new_tree v of Inl e \<Rightarrow> Inl e | Inr t \<Rightarrow> Inr (Media_tree (tree_string t)))"
  by (simp add: new_media_tree_def new_tree_def allowed_characters_def is_modified_restricted_name_def)

lemma new_media_subtype_eq:
  "new_media_subtype v = (case new_subtype v of Inl e \<Rightarrow> Inl e | Inr t \<Rightarrow> Inr (Media_subtype (subtype_string t)))"
  by (simp add: new_media_subtype_def new_subtype_def allowed_characters_def is_restricted_name_def)

lemma new_media_suffix_eq:
  "new_media_suffix v = (case new_suffix v of Inl e \<Rightarrow> Inl e | Inr t \<Rightarrow> Inr (Media_suffix (suffix_string t)))"
  by (simp add: new_media_suffix_def new_suffix_def allowed_characters_def
      is_modified_restricted_name_def Let_def)

lemma length_takeWhile_eq_length: "length (takeWhile P xs) = length xs \<longleftrightarrow> (\<forall>x\<in>set xs. P x)"
proof
  assume a: "length (takeWhile P xs) = length xs"
  have "length (takeWhile P xs @ dropWhile P xs) = length xs" by simp
  with a have "length (dropWhile P xs) = 0" by (simp only: length_append)
  then show "\<forall>x\<in>set xs. P x" by simp
next
  assume "\<forall>x\<in>set xs. P x"
  then show "length (takeWhile P xs) = length xs" by (induction xs) auto
qed

lemma drop_Suc_takeWhile: "drop (Suc (length (takeWhile P xs))) xs = tl (dropWhile P xs)"
  by (simp add: dropWhile_eq_drop [of P xs] drop_Suc tl_drop)

lemma nested_parser_type_eq:
  "nested_parser_type input =
     (case parser_type input of
        Inl e \<Rightarrow> Inl e
      | Inr (ty, rest) \<Rightarrow> (case new_media_top_type ty of Inl e \<Rightarrow> Inl e | Inr t \<Rightarrow> Inr (t, rest)))"
  by (auto simp: nested_parser_type_def parser_type_def Let_def length_takeWhile_eq_length
      drop_Suc_takeWhile split: sum.split)

lemma take_Suc_takeWhile:
  "dropWhile (\<lambda>c. c \<noteq> p) xs \<noteq> [] \<Longrightarrow>
     take (Suc (length (takeWhile (\<lambda>c. c \<noteq> p) xs))) xs = takeWhile (\<lambda>c. c \<noteq> p) xs @ [p]"
proof -
  assume d: "dropWhile (\<lambda>c. c \<noteq> p) xs \<noteq> []"
  let ?t = "takeWhile (\<lambda>c. c \<noteq> p) xs" and ?d = "dropWhile (\<lambda>c. c \<noteq> p) xs"
  from d have "hd ?d = p" using hd_dropWhile [of "\<lambda>c. c \<noteq> p" xs] by simp
  with d have "?d = p # tl ?d" by (cases ?d) auto
  then have "xs = ?t @ p # tl ?d" using takeWhile_dropWhile_id [of "\<lambda>c. c \<noteq> p" xs] by simp
  then have "take (Suc (length ?t)) xs = take (Suc (length ?t)) (?t @ p # tl ?d)" by simp
  then show ?thesis by simp
qed

lemma nested_parser_tree_eq:
  "nested_parser_tree input =
     (case parser_tree input of
        Inl e \<Rightarrow> Inl e
      | Inr (tr, rest) \<Rightarrow> (case new_media_tree tr of Inl e \<Rightarrow> Inl e | Inr t \<Rightarrow> Inr (t, rest)))"
proof (cases "dropWhile (\<lambda>c. c \<noteq> CHR ''.'') input = []")
  case True
  then show ?thesis
    by (auto simp: nested_parser_tree_def parser_tree_def Let_def length_takeWhile_eq_length
        split: sum.split)
next
  case False
  then show ?thesis
    by (auto simp: nested_parser_tree_def parser_tree_def Let_def length_takeWhile_eq_length
        take_Suc_takeWhile drop_Suc_takeWhile split: sum.split)
qed

lemma find_last_le: "find_last input c \<le> length input"
  by (simp add: find_last_def)

lemma nested_parser_subtype_eq:
  "nested_parser_subtype input =
     (case parser_subtype input of
        (st, rest) \<Rightarrow> (case new_media_subtype st of Inl e \<Rightarrow> Inl e | Inr t \<Rightarrow> Inr (t, rest)))"
  by (simp add: nested_parser_subtype_def parser_subtype_def Let_def min_absorb2 find_last_le
      split: sum.split)

text \<open>The second encoding fails on exactly the inputs on which the first fails.\<close>

lemma isl_nested_parser: "isl (nested_parser s) = isl (parser s)"
  unfolding parser_def nested_parser_def Let_def
    strip_parameters_def nested_parser_type_eq nested_parser_tree_eq nested_parser_subtype_eq
    new_media_top_type_eq new_media_tree_eq new_media_subtype_eq new_media_suffix_eq
  by (auto split: sum.splits prod.splits)

section \<open>Cutting at the last plus sign\<close>

lemma find_last_split:
  assumes "c \<in> set r"
  shows "\<exists>a b. r = a @ c # b \<and> c \<notin> set b \<and> find_last r c = length a"
proof -
  from assms obtain a b where r: "r = a @ c # b" and b: "c \<notin> set b"
    using split_list_last [of c r] by blast
  have "rev r = rev b @ c # rev a" using r by simp
  moreover have "takeWhile (\<lambda>x. x \<noteq> c) (rev b @ c # rev a) = rev b"
    using b by (auto simp: takeWhile_tail)
  ultimately have "length (takeWhile (\<lambda>x. x \<noteq> c) (rev r)) = length b" by simp
  with assms r have "find_last r c = length a" by (simp add: find_last_def)
  with r b show ?thesis by blast
qed

lemma find_last_absent: "c \<notin> set r \<Longrightarrow> find_last r c = length r"
  by (simp add: find_last_def)

lemma parser_subtype_present:
  assumes "CHR ''+'' \<in> set r"
  shows "\<exists>a b. r = a @ CHR ''+'' # b \<and> CHR ''+'' \<notin> set b \<and> parser_subtype r = (a, CHR ''+'' # b)"
proof -
  from find_last_split [OF assms] obtain a b where
    r: "r = a @ CHR ''+'' # b" and b: "CHR ''+'' \<notin> set b" and f: "find_last r CHR ''+'' = length a"
    by blast
  have "parser_subtype r = (take (length a) r, drop (length a) r)"
    by (simp add: parser_subtype_def Let_def f)
  also have "\<dots> = (a, CHR ''+'' # b)" by (simp add: r)
  finally show ?thesis using r b by blast
qed

lemma parser_subtype_absent: "CHR ''+'' \<notin> set r \<Longrightarrow> parser_subtype r = (r, [])"
  by (simp add: parser_subtype_def Let_def find_last_absent)

lemma parser_subtype_trailing_plus: "parser_subtype (v @ ''+'') = (v, ''+'')"
proof -
  have "CHR ''+'' \<in> set (v @ ''+'')" by simp
  from parser_subtype_present [OF this] obtain a b where
    r: "v @ ''+'' = a @ CHR ''+'' # b" and b: "CHR ''+'' \<notin> set b"
    and p: "parser_subtype (v @ ''+'') = (a, CHR ''+'' # b)" by blast
  have "b = []"
  proof (rule ccontr)
    assume "b \<noteq> []"
    then have "last (a @ CHR ''+'' # b) = last b" by simp
    with r have "last b = CHR ''+''" by (metis last_snoc)
    with \<open>b \<noteq> []\<close> b show False using last_in_set [of b] by simp
  qed
  with r p show ?thesis by simp
qed

lemma parser_tree_Inr_shape:
  "parser_tree input = Inr (tr, rest) \<Longrightarrow> tr = [] \<and> rest = input \<or> tr \<noteq> [] \<and> last tr = CHR ''.''"
  by (auto simp: parser_tree_def Let_def split: if_splits)

lemma new_suffix_plus:
  "new_suffix ''+'' = Inl (Parsing_error ''media type: suffix: lenght required to be [2..127] characters'')"
  by (simp add: new_suffix_def)

lemma parser_no_slash:
  assumes "CHR ''/'' \<notin> set (takeWhile (\<lambda>c. c \<noteq> CHR '';'') s)"
  shows "parser s = Inl (Parsing_error ''media type: parsing: missing delimiter '/' after type'')"
  using assms by (simp add: parser_def strip_parameters_def parser_type_def Let_def)

lemma nested_parser_no_slash:
  assumes "CHR ''/'' \<notin> set (takeWhile (\<lambda>c. c \<noteq> CHR '';'') s)"
  shows "nested_parser s = Inl (Parsing_error ''media type: parsing: missing delimiter '/' after type'')"
  using assms by (simp add: nested_parser_def nested_parser_type_eq parser_type_def Let_def)

lemma parser_trailing_plus:
  assumes "takeWhile (\<lambda>c. c \<noteq> CHR '';'') s = u @ ''+''"
  shows "isl (parser s)"
proof (cases "parser_type (u @ ''+'')")
  case (Inl e)
  with assms show ?thesis by (simp add: parser_def strip_parameters_def)
next
  case (Inr p1)
  obtain ty r1 where p1: "p1 = (ty, r1)" by (cases p1)
  from Inr p1 have s1: "u @ ''+'' = ty @ CHR ''/'' # r1" using parser_type_Inr by simp
  have r1: "r1 \<noteq> [] \<and> last r1 = CHR ''+''"
  proof (cases "r1 = []")
    case True
    with s1 have "last (u @ ''+'') = CHR ''/''" by simp
    then show ?thesis by simp
  next
    case False
    with s1 have "last (u @ ''+'') = last r1" by simp
    with False show ?thesis by simp
  qed
  show ?thesis
  proof (cases "parser_tree r1")
    case (Inl e)
    with assms Inr p1 show ?thesis by (simp add: parser_def strip_parameters_def)
  next
    case (Inr p2)
    obtain tr r2 where p2: "p2 = (tr, r2)" by (cases p2)
    from Inr p2 have s2: "r1 = tr @ r2" using parser_tree_Inr by simp
    from Inr p2 have sh: "tr = [] \<and> r2 = r1 \<or> tr \<noteq> [] \<and> last tr = CHR ''.''"
      using parser_tree_Inr_shape by simp
    have r2: "r2 \<noteq> [] \<and> last r2 = CHR ''+''"
    proof (cases "r2 = []")
      case True
      with s2 sh r1 show ?thesis by auto
    next
      case False
      with s2 have "last r1 = last r2" by simp
      with False r1 show ?thesis by simp
    qed
    then obtain v where v: "r2 = v @ ''+''" by (metis append_butlast_last_id)
    have "parser_subtype r2 = (v, ''+'')" unfolding v by (rule parser_subtype_trailing_plus)
    with assms \<open>parser_type (u @ ''+'') = Inr p1\<close> p1 Inr p2 show ?thesis
      by (simp add: parser_def strip_parameters_def new_suffix_plus)
  qed
qed

text \<open>What a successful parse holds, read off its fields.\<close>

lemma nested_parser_Inr:
  assumes "nested_parser s = Inr n"
  shows "\<exists>m. parser s = Inr m
    \<and> top_type_value (nmt_type n) = type_string (mt_type m)
    \<and> tree_value (nmt_tree n) = tree_string (mt_tree m)
    \<and> subtype_value (nmt_subtype n) = subtype_string (mt_subtype m)
    \<and> map_option suffix_value (nmt_suffix n) = map_option suffix_string (mt_suffix m)"
  using assms
  unfolding parser_def nested_parser_def Let_def
    strip_parameters_def nested_parser_type_eq nested_parser_tree_eq nested_parser_subtype_eq
    new_media_top_type_eq new_media_tree_eq new_media_subtype_eq new_media_suffix_eq
  by (auto split: sum.splits prod.splits if_splits
      simp: make_media_type_def make_nested_media_type_def)

lemma parser_Inr_split:
  assumes "parser s = Inr m"
  defines "r \<equiv> drop (Suc (length (type_string (mt_type m)) + length (tree_string (mt_tree m))))
                  (takeWhile (\<lambda>c. c \<noteq> CHR '';'') s)"
  shows "(CHR ''+'' \<in> set r \<longrightarrow>
            (\<exists>a b. r = a @ CHR ''+'' # b \<and> CHR ''+'' \<notin> set b
               \<and> subtype_string (mt_subtype m) = map to_lowercase a
               \<and> map_option suffix_string (mt_suffix m) = Some (map to_lowercase (CHR ''+'' # b))))
       \<and> (CHR ''+'' \<notin> set r \<longrightarrow>
            subtype_string (mt_subtype m) = map to_lowercase r \<and> mt_suffix m = None)"
proof -
  from assms(1) obtain ty input1 where p1: "parser_type (strip_parameters s) = Inr (ty, input1)"
    by (auto simp: parser_def Let_def split: sum.splits)
  from assms(1) p1 obtain tr input2 where p2: "parser_tree input1 = Inr (tr, input2)"
    by (auto simp: parser_def Let_def split: sum.splits)
  obtain st input3 where p3: "parser_subtype input2 = (st, input3)" by (cases "parser_subtype input2")
  from assms(1) p1 p2 p3 obtain sf ty' tr' st' where
    sf: "(if input3 = [] then Inr None else map_sum id Some (new_suffix input3)) = Inr sf"
    and ty': "new_type ty = Inr ty'" and tr': "new_tree tr = Inr tr'" and st': "new_subtype st = Inr st'"
    and m: "m = make_media_type ty' tr' st' sf"
    by (auto simp: parser_def Let_def split: sum.splits)
  have fields: "mt_type m = ty'" "mt_tree m = tr'" "mt_subtype m = st'" "mt_suffix m = sf"
    by (simp_all add: m make_media_type_def)
  have "strip_parameters s = ty @ CHR ''/'' # tr @ input2"
    using parser_type_Inr [OF p1] parser_tree_Inr [OF p2] by simp
  then have tw: "takeWhile (\<lambda>c. c \<noteq> CHR '';'') s = ty @ CHR ''/'' # tr @ input2"
    by (simp add: strip_parameters_def)
  have len: "length (type_string (mt_type m)) = length ty" "length (tree_string (mt_tree m)) = length tr"
    by (simp_all add: fields new_type_Inr [OF ty'] new_tree_Inr [OF tr'])
  have r: "r = input2" unfolding r_def len tw by simp
  have sub: "subtype_string (mt_subtype m) = map to_lowercase st"
    by (simp add: fields new_subtype_Inr [OF st'])
  have present: "CHR ''+'' \<in> set r \<longrightarrow>
            (\<exists>a b. r = a @ CHR ''+'' # b \<and> CHR ''+'' \<notin> set b
               \<and> subtype_string (mt_subtype m) = map to_lowercase a
               \<and> map_option suffix_string (mt_suffix m) = Some (map to_lowercase (CHR ''+'' # b)))"
  proof
    assume "CHR ''+'' \<in> set r"
    then have "CHR ''+'' \<in> set input2" by (simp add: r)
    from parser_subtype_present [OF this] obtain a b where
      ab: "input2 = a @ CHR ''+'' # b" "CHR ''+'' \<notin> set b" and ps: "parser_subtype input2 = (a, CHR ''+'' # b)"
      by blast
    from ps p3 have e: "st = a" "input3 = CHR ''+'' # b" by simp_all
    with sf obtain x where x: "new_suffix (CHR ''+'' # b) = Inr x" "sf = Some x"
      by (cases "new_suffix (CHR ''+'' # b)") auto
    have "map_option suffix_string (mt_suffix m) = Some (map to_lowercase (CHR ''+'' # b))"
      using new_suffix_Inr [OF x(1)] by (simp add: fields x(2))
    with ab e sub r
    show "\<exists>a b. r = a @ CHR ''+'' # b \<and> CHR ''+'' \<notin> set b
               \<and> subtype_string (mt_subtype m) = map to_lowercase a
               \<and> map_option suffix_string (mt_suffix m) = Some (map to_lowercase (CHR ''+'' # b))"
      by blast
  qed
  have absent: "CHR ''+'' \<notin> set r \<longrightarrow>
            subtype_string (mt_subtype m) = map to_lowercase r \<and> mt_suffix m = None"
  proof
    assume "CHR ''+'' \<notin> set r"
    then have "CHR ''+'' \<notin> set input2" by (simp add: r)
    then have "parser_subtype input2 = (input2, [])" by (rule parser_subtype_absent)
    with p3 have e: "st = input2" "input3 = []" by simp_all
    with sf have "sf = None" by simp
    with e sub r show "subtype_string (mt_subtype m) = map to_lowercase r \<and> mt_suffix m = None"
      by (simp add: fields)
  qed
  from present absent show ?thesis by (rule conjI)
qed

section \<open>Round trip\<close>

text \<open>
  C1. Round trip: for every string \<open>s\<close> without a semicolon from which construction of
  the media type succeeds, the canonical string of the constructed value is \<open>s\<close> with every
  ASCII uppercase letter replaced by its lowercase counterpart (\<open>to_lowercase\<close> leaves every
  other character unchanged).
\<close>

theorem round_trip:
  assumes "CHR '';'' \<notin> set s" and "new_media_type s = Inr m"
  shows "media_type_string m = map to_lowercase s"
  using assms parser_Inr_string [of s m] by (simp add: new_media_type_def strip_parameters_id)

theorem round_trip_witness:
  "CHR '';'' \<notin> set ''Application/Vnd.Api+Json''
   \<and> new_media_type ''Application/Vnd.Api+Json'' =
       Inr (make_media_type (Rfc6838_type ''application'') (Rfc6838_tree ''vnd.'')
             (Rfc6838_subtype ''api'') (Some (Rfc6838_suffix ''+json'')))
   \<and> media_type_string (make_media_type (Rfc6838_type ''application'') (Rfc6838_tree ''vnd.'')
             (Rfc6838_subtype ''api'') (Some (Rfc6838_suffix ''+json'')))
       = map to_lowercase ''Application/Vnd.Api+Json''
   \<and> map to_lowercase ''Application/Vnd.Api+Json'' = ''application/vnd.api+json''"
proof -
  have a: "CHR '';'' \<notin> set ''Application/Vnd.Api+Json''" by simp
  have b: "new_media_type ''Application/Vnd.Api+Json'' =
       Inr (make_media_type (Rfc6838_type ''application'') (Rfc6838_tree ''vnd.'')
             (Rfc6838_subtype ''api'') (Some (Rfc6838_suffix ''+json'')))" by code_simp
  have c: "map to_lowercase ''Application/Vnd.Api+Json'' = ''application/vnd.api+json''" by code_simp
  show ?thesis by (intro conjI a b c round_trip [OF a b])
qed

section \<open>The two encodings\<close>

text \<open>
  C2 as stated does not hold: the two encodings can fail with different messages. The
  first encoding runs both cutting lambdas before any validator; the second validates the
  top-level type inside the first lambda. On the input \<open>/\<close> the first reports the missing
  tree and the second the empty top-level type.
\<close>

theorem encodings_differ_in_message:
  "new_media_type ''/'' =
     Inl (Parsing_error (''media type: parsing: missing tree between '/' and '.'' @ [CHR 0x27]))
   \<and> new_nested_media_type ''/'' =
     Inl (Parsing_error ''media type: top-level type: lenght required to be [1..127] characters'')
   \<and> Parsing_error (''media type: parsing: missing tree between '/' and '.'' @ [CHR 0x27])
     \<noteq> Parsing_error ''media type: top-level type: lenght required to be [1..127] characters''"
proof -
  have a: "new_media_type ''/'' =
     Inl (Parsing_error (''media type: parsing: missing tree between '/' and '.'' @ [CHR 0x27]))"
    by code_simp
  have b: "new_nested_media_type ''/'' =
     Inl (Parsing_error ''media type: top-level type: lenght required to be [1..127] characters'')"
    by code_simp
  have c: "Parsing_error (''media type: parsing: missing tree between '/' and '.'' @ [CHR 0x27])
     \<noteq> Parsing_error ''media type: top-level type: lenght required to be [1..127] characters''"
    by simp
  show ?thesis by (intro conjI a b c)
qed

text \<open>
  C2, amended. For every input string the two encodings either both fail or both succeed,
  and when they succeed they hold the same normalized type, tree, subtype and optional
  suffix strings and give the same canonical string. (The message of a failure is left
  out: it may differ.) Both sides are mapped to the outcome an observer sees: \<open>()\<close> for a
  failure, the five strings for a success.
\<close>

theorem encodings_agree_on_outcome:
  "map_sum (\<lambda>e. ())
      (\<lambda>m. (type_string (mt_type m), tree_string (mt_tree m), subtype_string (mt_subtype m),
            map_option suffix_string (mt_suffix m), media_type_string m))
      (new_media_type s)
   = map_sum (\<lambda>e. ())
      (\<lambda>n. (top_type_value (nmt_type n), tree_value (nmt_tree n), subtype_value (nmt_subtype n),
            map_option suffix_value (nmt_suffix n), nested_media_type_string n))
      (new_nested_media_type s)"
  unfolding new_media_type_def new_nested_media_type_def parser_def nested_parser_def Let_def
    strip_parameters_def nested_parser_type_eq nested_parser_tree_eq nested_parser_subtype_eq
    new_media_top_type_eq new_media_tree_eq new_media_subtype_eq new_media_suffix_eq
  by (auto split: sum.splits prod.splits
      simp: media_type_string_def nested_media_type_string_def make_media_type_def
        make_nested_media_type_def)

theorem encodings_agree_on_outcome_witness:
  "new_media_type ''Text/X.Y+Xml;q=1'' =
     Inr (make_media_type (Rfc6838_type ''text'') (Rfc6838_tree ''x.'') (Rfc6838_subtype ''y'')
           (Some (Rfc6838_suffix ''+xml'')))
   \<and> new_nested_media_type ''Text/X.Y+Xml;q=1'' =
     Inr (make_nested_media_type (Media_top_type ''text'') (Media_tree ''x.'') (Media_subtype ''y'')
           (Some (Media_suffix ''+xml'')))
   \<and> map_sum (\<lambda>e. ())
      (\<lambda>m. (type_string (mt_type m), tree_string (mt_tree m), subtype_string (mt_subtype m),
            map_option suffix_string (mt_suffix m), media_type_string m))
      (new_media_type ''Text/X.Y+Xml;q=1'')
   = map_sum (\<lambda>e. ())
      (\<lambda>n. (top_type_value (nmt_type n), tree_value (nmt_tree n), subtype_value (nmt_subtype n),
            map_option suffix_value (nmt_suffix n), nested_media_type_string n))
      (new_nested_media_type ''Text/X.Y+Xml;q=1'')
   \<and> nested_media_type_string
        (make_nested_media_type (Media_top_type ''text'') (Media_tree ''x.'') (Media_subtype ''y'')
           (Some (Media_suffix ''+xml''))) = ''text/x.y+xml''"
proof -
  have a: "new_media_type ''Text/X.Y+Xml;q=1'' =
     Inr (make_media_type (Rfc6838_type ''text'') (Rfc6838_tree ''x.'') (Rfc6838_subtype ''y'')
           (Some (Rfc6838_suffix ''+xml'')))" by code_simp
  have b: "new_nested_media_type ''Text/X.Y+Xml;q=1'' =
     Inr (make_nested_media_type (Media_top_type ''text'') (Media_tree ''x.'') (Media_subtype ''y'')
           (Some (Media_suffix ''+xml'')))" by code_simp
  have c: "nested_media_type_string
        (make_nested_media_type (Media_top_type ''text'') (Media_tree ''x.'') (Media_subtype ''y'')
           (Some (Media_suffix ''+xml''))) = ''text/x.y+xml''" by code_simp
  show ?thesis by (intro conjI a b c encodings_agree_on_outcome)
qed

section \<open>The delimiter steps of the parser\<close>

text \<open>
  C5. For every input whose portion before the first semicolon contains no slash,
  construction fails with the parser's missing-delimiter error (the spec quotes its message
  in short; the code's message is \<open>media type: parsing: missing delimiter '/' after type\<close>),
  in both encodings. \<open>application.json\<close> fails this way.
\<close>

theorem missing_delimiter:
  assumes "CHR ''/'' \<notin> set (takeWhile (\<lambda>c. c \<noteq> CHR '';'') s)"
  shows "new_media_type s = Inl (Parsing_error ''media type: parsing: missing delimiter '/' after type'')
    \<and> new_nested_media_type s =
        Inl (Parsing_error ''media type: parsing: missing delimiter '/' after type'')
    \<and> new_media_type ''application.json'' =
        Inl (Parsing_error ''media type: parsing: missing delimiter '/' after type'')"
proof -
  have "new_media_type ''application.json'' =
        Inl (Parsing_error ''media type: parsing: missing delimiter '/' after type'')"
    by code_simp
  with parser_no_slash [OF assms] nested_parser_no_slash [OF assms] show ?thesis
    by (simp only: new_media_type_def new_nested_media_type_def simp_thms)
qed

theorem missing_delimiter_witness:
  "CHR ''/'' \<notin> set (takeWhile (\<lambda>c. c \<noteq> CHR '';'') ''text.plain;a=b/c'')
   \<and> new_media_type ''text.plain;a=b/c'' =
       Inl (Parsing_error ''media type: parsing: missing delimiter '/' after type'')
   \<and> new_nested_media_type ''text.plain;a=b/c'' =
       Inl (Parsing_error ''media type: parsing: missing delimiter '/' after type'')"
proof -
  have a: "CHR ''/'' \<notin> set (takeWhile (\<lambda>c. c \<noteq> CHR '';'') ''text.plain;a=b/c'')" by simp
  note r = missing_delimiter [OF a]
  show ?thesis
    by (intro conjI a r [THEN conjunct1] r [THEN conjunct2, THEN conjunct1])
qed

text \<open>
  The tree step on a non-empty remainder: a leading dot fails, no dot gives the standard
  tree and leaves the remainder as it is, and otherwise the remainder is cut behind its
  first dot.
\<close>

lemma parser_tree_on_nonempty:
  assumes "r \<noteq> []"
  shows "(hd r = CHR ''.'' \<longrightarrow>
            parser_tree r =
              Inl (Parsing_error (''media type: parsing: missing tree between '/' and '.'' @ [CHR 0x27])))
    \<and> (CHR ''.'' \<notin> set r \<longrightarrow> parser_tree r = Inr ([], r))
    \<and> (hd r \<noteq> CHR ''.'' \<and> CHR ''.'' \<in> set r \<longrightarrow>
          (\<exists>a b. r = a @ CHR ''.'' # b \<and> CHR ''.'' \<notin> set a \<and> parser_tree r = Inr (a @ ''.'', b)))"
proof (intro conjI impI)
  assume "hd r = CHR ''.''"
  with assms show "parser_tree r =
      Inl (Parsing_error (''media type: parsing: missing tree between '/' and '.'' @ [CHR 0x27]))"
    by (cases r) (auto simp: parser_tree_def)
next
  assume "CHR ''.'' \<notin> set r"
  with assms show "parser_tree r = Inr ([], r)"
    by (cases r) (auto simp: parser_tree_def Let_def)
next
  assume a: "hd r \<noteq> CHR ''.'' \<and> CHR ''.'' \<in> set r"
  let ?t = "takeWhile (\<lambda>c. c \<noteq> CHR ''.'') r" and ?d = "dropWhile (\<lambda>c. c \<noteq> CHR ''.'') r"
  from a have d: "?d \<noteq> []" by auto
  then have "hd ?d = CHR ''.''" using hd_dropWhile [of "\<lambda>c. c \<noteq> CHR ''.''" r] by simp
  with d have dd: "?d = CHR ''.'' # tl ?d" by (cases ?d) auto
  then have r: "r = ?t @ CHR ''.'' # tl ?d"
    using takeWhile_dropWhile_id [of "\<lambda>c. c \<noteq> CHR ''.''" r] by simp
  have t: "CHR ''.'' \<notin> set ?t" by (auto dest: set_takeWhileD)
  from a assms have "?t \<noteq> []" by (cases r) auto
  with d have "parser_tree r = Inr (?t @ ''.'', tl ?d)" by (simp add: parser_tree_def Let_def)
  with r t show "\<exists>a b. r = a @ CHR ''.'' # b \<and> CHR ''.'' \<notin> set a \<and> parser_tree r = Inr (a @ ''.'', b)"
    by blast
qed

text \<open>
  C3. The tree step on the empty remainder. The input \<open>text/\<close> passes the slash step with
  the top-level type \<open>text\<close> and an empty remainder, which holds no dot. The tree step
  then fails with the missing-tree message in both encodings, where the claim has the
  standard tree and the unchanged remainder going on to the subtype step. The subtype
  constructor on that remainder would fail with its own message.
\<close>

theorem tree_step_on_empty_remainder:
  "parser_type ''text/'' = Inr (''text'', [])
   \<and> parser_tree [] =
       Inl (Parsing_error (''media type: parsing: missing tree between '/' and '.'' @ [CHR 0x27]))
   \<and> new_media_type ''text/'' =
       Inl (Parsing_error (''media type: parsing: missing tree between '/' and '.'' @ [CHR 0x27]))
   \<and> new_nested_media_type ''text/'' =
       Inl (Parsing_error (''media type: parsing: missing tree between '/' and '.'' @ [CHR 0x27]))
   \<and> new_subtype [] =
       Inl (Parsing_error ''media type: subtype: lenght required to be [1..127] characters'')"
proof -
  have a: "parser_type ''text/'' = Inr (''text'', [])" by code_simp
  have b: "parser_tree [] =
       Inl (Parsing_error (''media type: parsing: missing tree between '/' and '.'' @ [CHR 0x27]))"
    by code_simp
  have c: "new_media_type ''text/'' =
       Inl (Parsing_error (''media type: parsing: missing tree between '/' and '.'' @ [CHR 0x27]))"
    by code_simp
  have d: "new_nested_media_type ''text/'' =
       Inl (Parsing_error (''media type: parsing: missing tree between '/' and '.'' @ [CHR 0x27]))"
    by code_simp
  have e: "new_subtype [] =
       Inl (Parsing_error ''media type: subtype: lenght required to be [1..127] characters'')"
    by code_simp
  show ?thesis by (intro conjI a b c d e)
qed

text \<open>
  C4. The suffix split is at the last plus sign. Take an input that parses, and let \<open>r\<close>
  be the remaining slice: what is left of the portion before the first semicolon behind the
  top-level type, the slash and the tree. When \<open>r\<close> holds a plus sign, it is
  \<open>a @ ''+'' @ b\<close> with no plus sign in \<open>b\<close>, the subtype of the result is \<open>a\<close> and its
  suffix is \<open>''+'' @ b\<close> (both in lowercase). When \<open>r\<close> holds none, the subtype is all of
  \<open>r\<close> and the suffix is absent. This holds for the fields of the result in both
  encodings. The cutting step alone behaves the same way on every slice, and the second
  encoding cuts at the same place. \<open>application/x+y+json\<close> has subtype \<open>x+y\<close> and suffix
  \<open>+json\<close>, also behind a tree; an input without a plus sign before the first semicolon
  that parses has no suffix, as \<open>text/plain\<close> shows.
\<close>

theorem suffix_split_at_last_plus:
  "(new_media_type s = Inr m \<longrightarrow>
      (let r = drop (Suc (length (type_string (mt_type m)) + length (tree_string (mt_tree m)))) (takeWhile (\<lambda>c. c \<noteq> CHR '';'') s)
       in (CHR ''+'' \<in> set r \<longrightarrow>
             (\<exists>a b. r = a @ CHR ''+'' # b \<and> CHR ''+'' \<notin> set b
                \<and> subtype_string (mt_subtype m) = map to_lowercase a
                \<and> map_option suffix_string (mt_suffix m) = Some (map to_lowercase (CHR ''+'' # b))))
          \<and> (CHR ''+'' \<notin> set r \<longrightarrow>
             subtype_string (mt_subtype m) = map to_lowercase r \<and> mt_suffix m = None)))
   \<and> (new_nested_media_type s = Inr n \<longrightarrow>
      (let r = drop (Suc (length (top_type_value (nmt_type n)) + length (tree_value (nmt_tree n)))) (takeWhile (\<lambda>c. c \<noteq> CHR '';'') s)
       in (CHR ''+'' \<in> set r \<longrightarrow>
             (\<exists>a b. r = a @ CHR ''+'' # b \<and> CHR ''+'' \<notin> set b
                \<and> subtype_value (nmt_subtype n) = map to_lowercase a
                \<and> map_option suffix_value (nmt_suffix n) = Some (map to_lowercase (CHR ''+'' # b))))
          \<and> (CHR ''+'' \<notin> set r \<longrightarrow>
             subtype_value (nmt_subtype n) = map to_lowercase r \<and> nmt_suffix n = None)))
   \<and> (CHR ''+'' \<in> set r \<longrightarrow>
      (\<exists>a b. r = a @ CHR ''+'' # b \<and> CHR ''+'' \<notin> set b \<and> parser_subtype r = (a, CHR ''+'' # b)))
   \<and> (CHR ''+'' \<notin> set r \<longrightarrow> parser_subtype r = (r, []))
   \<and> nested_parser_subtype r =
       (case new_media_subtype (fst (parser_subtype r)) of
          Inl e \<Rightarrow> Inl e
        | Inr t \<Rightarrow> Inr (t, snd (parser_subtype r)))
   \<and> new_media_type ''application/x+y+json'' =
       Inr (make_media_type (Rfc6838_type ''application'') (Rfc6838_tree [])
             (Rfc6838_subtype ''x+y'') (Some (Rfc6838_suffix ''+json'')))
   \<and> (CHR ''+'' \<notin> set (takeWhile (\<lambda>c. c \<noteq> CHR '';'') s) \<longrightarrow> new_media_type s = Inr m \<longrightarrow>
        mt_suffix m = None)
   \<and> new_media_type ''text/plain'' =
       Inr (make_media_type (Rfc6838_type ''text'') (Rfc6838_tree []) (Rfc6838_subtype ''plain'') None)
   \<and> map_sum id (\<lambda>m. (type_string (mt_type m), tree_string (mt_tree m), subtype_string (mt_subtype m),
            map_option suffix_string (mt_suffix m))) (new_media_type ''application/x+y+json'')
       = Inr (''application'', [], ''x+y'', Some ''+json'')
   \<and> map_sum id (\<lambda>m. (type_string (mt_type m), tree_string (mt_tree m), subtype_string (mt_subtype m),
            map_option suffix_string (mt_suffix m))) (new_media_type ''application/vnd.a+b+json'')
       = Inr (''application'', ''vnd.'', ''a+b'', Some ''+json'')
   \<and> map_sum id (\<lambda>n. (top_type_value (nmt_type n), tree_value (nmt_tree n), subtype_value (nmt_subtype n),
            map_option suffix_value (nmt_suffix n))) (new_nested_media_type ''application/vnd.a+b+json'')
       = Inr (''application'', ''vnd.'', ''a+b'', Some ''+json'')
   \<and> map_sum id (\<lambda>m. (type_string (mt_type m), tree_string (mt_tree m), subtype_string (mt_subtype m),
            map_option suffix_string (mt_suffix m))) (new_media_type ''text/plain'')
       = Inr (''text'', [], ''plain'', None)"
proof -
  have n1: "(new_media_type s = Inr m \<longrightarrow>
      (let r = drop (Suc (length (type_string (mt_type m)) + length (tree_string (mt_tree m)))) (takeWhile (\<lambda>c. c \<noteq> CHR '';'') s)
       in (CHR ''+'' \<in> set r \<longrightarrow>
             (\<exists>a b. r = a @ CHR ''+'' # b \<and> CHR ''+'' \<notin> set b
                \<and> subtype_string (mt_subtype m) = map to_lowercase a
                \<and> map_option suffix_string (mt_suffix m) = Some (map to_lowercase (CHR ''+'' # b))))
          \<and> (CHR ''+'' \<notin> set r \<longrightarrow>
             subtype_string (mt_subtype m) = map to_lowercase r \<and> mt_suffix m = None)))"
    using parser_Inr_split [of s m] by (simp add: new_media_type_def Let_def)
  have n2: "(new_nested_media_type s = Inr n \<longrightarrow>
      (let r = drop (Suc (length (top_type_value (nmt_type n)) + length (tree_value (nmt_tree n)))) (takeWhile (\<lambda>c. c \<noteq> CHR '';'') s)
       in (CHR ''+'' \<in> set r \<longrightarrow>
             (\<exists>a b. r = a @ CHR ''+'' # b \<and> CHR ''+'' \<notin> set b
                \<and> subtype_value (nmt_subtype n) = map to_lowercase a
                \<and> map_option suffix_value (nmt_suffix n) = Some (map to_lowercase (CHR ''+'' # b))))
          \<and> (CHR ''+'' \<notin> set r \<longrightarrow>
             subtype_value (nmt_subtype n) = map to_lowercase r \<and> nmt_suffix n = None)))"
  proof
    assume "new_nested_media_type s = Inr n"
    then have "nested_parser s = Inr n" by (simp add: new_nested_media_type_def)
    from nested_parser_Inr [OF this] obtain m' where m': "parser s = Inr m'"
      and eq: "top_type_value (nmt_type n) = type_string (mt_type m')"
        "tree_value (nmt_tree n) = tree_string (mt_tree m')"
        "subtype_value (nmt_subtype n) = subtype_string (mt_subtype m')"
        "map_option suffix_value (nmt_suffix n) = map_option suffix_string (mt_suffix m')"
      by blast
    have nn: "(nmt_suffix n = None) = (mt_suffix m' = None)"
      using eq(4) by (cases "nmt_suffix n"; cases "mt_suffix m'") auto
    from parser_Inr_split [OF m'] show "let r = drop (Suc (length (top_type_value (nmt_type n)) + length (tree_value (nmt_tree n)))) (takeWhile (\<lambda>c. c \<noteq> CHR '';'') s)
       in (CHR ''+'' \<in> set r \<longrightarrow>
             (\<exists>a b. r = a @ CHR ''+'' # b \<and> CHR ''+'' \<notin> set b
                \<and> subtype_value (nmt_subtype n) = map to_lowercase a
                \<and> map_option suffix_value (nmt_suffix n) = Some (map to_lowercase (CHR ''+'' # b))))
          \<and> (CHR ''+'' \<notin> set r \<longrightarrow>
             subtype_value (nmt_subtype n) = map to_lowercase r \<and> nmt_suffix n = None)"
      unfolding Let_def eq nn .
  qed
  have a: "(CHR ''+'' \<in> set r \<longrightarrow>
      (\<exists>a b. r = a @ CHR ''+'' # b \<and> CHR ''+'' \<notin> set b \<and> parser_subtype r = (a, CHR ''+'' # b)))"
    using parser_subtype_present by blast
  have b: "(CHR ''+'' \<notin> set r \<longrightarrow> parser_subtype r = (r, []))"
    using parser_subtype_absent by blast
  have c: "nested_parser_subtype r =
       (case new_media_subtype (fst (parser_subtype r)) of
          Inl e \<Rightarrow> Inl e
        | Inr t \<Rightarrow> Inr (t, snd (parser_subtype r)))"
    by (cases "parser_subtype r") (simp add: nested_parser_subtype_eq split: sum.split)
  have d: "new_media_type ''application/x+y+json'' =
       Inr (make_media_type (Rfc6838_type ''application'') (Rfc6838_tree [])
             (Rfc6838_subtype ''x+y'') (Some (Rfc6838_suffix ''+json'')))"
    by code_simp
  have e: "(CHR ''+'' \<notin> set (takeWhile (\<lambda>c. c \<noteq> CHR '';'') s) \<longrightarrow> new_media_type s = Inr m \<longrightarrow>
        mt_suffix m = None)"
  proof (intro impI)
    assume np: "CHR ''+'' \<notin> set (takeWhile (\<lambda>c. c \<noteq> CHR '';'') s)" and m: "new_media_type s = Inr m"
    from m obtain ty input1 where p1: "parser_type (strip_parameters s) = Inr (ty, input1)"
      by (auto simp: new_media_type_def parser_def Let_def split: sum.splits)
    from m p1 obtain tr input2 where p2: "parser_tree input1 = Inr (tr, input2)"
      by (auto simp: new_media_type_def parser_def Let_def split: sum.splits)
    have "strip_parameters s = ty @ CHR ''/'' # tr @ input2"
      using parser_type_Inr [OF p1] parser_tree_Inr [OF p2] by simp
    with np have "CHR ''+'' \<notin> set input2" by (simp add: strip_parameters_def)
    then have "parser_subtype input2 = (input2, [])" by (rule parser_subtype_absent)
    with m p1 p2 show "mt_suffix m = None"
      by (auto simp: new_media_type_def parser_def Let_def make_media_type_def split: sum.splits)
  qed
  have f: "new_media_type ''text/plain'' =
       Inr (make_media_type (Rfc6838_type ''text'') (Rfc6838_tree []) (Rfc6838_subtype ''plain'') None)"
    by code_simp
  have i1: "map_sum id (\<lambda>m. (type_string (mt_type m), tree_string (mt_tree m), subtype_string (mt_subtype m),
            map_option suffix_string (mt_suffix m))) (new_media_type ''application/x+y+json'')
       = Inr (''application'', [], ''x+y'', Some ''+json'')"
    by code_simp
  have i2: "map_sum id (\<lambda>m. (type_string (mt_type m), tree_string (mt_tree m), subtype_string (mt_subtype m),
            map_option suffix_string (mt_suffix m))) (new_media_type ''application/vnd.a+b+json'')
       = Inr (''application'', ''vnd.'', ''a+b'', Some ''+json'')"
    by code_simp
  have i3: "map_sum id (\<lambda>n. (top_type_value (nmt_type n), tree_value (nmt_tree n), subtype_value (nmt_subtype n),
            map_option suffix_value (nmt_suffix n))) (new_nested_media_type ''application/vnd.a+b+json'')
       = Inr (''application'', ''vnd.'', ''a+b'', Some ''+json'')"
    by code_simp
  have i4: "map_sum id (\<lambda>m. (type_string (mt_type m), tree_string (mt_tree m), subtype_string (mt_subtype m),
            map_option suffix_string (mt_suffix m))) (new_media_type ''text/plain'')
       = Inr (''text'', [], ''plain'', None)"
    by code_simp
  show ?thesis by (intro conjI n1 n2 a b c d e f i1 i2 i3 i4)
qed

theorem suffix_split_at_last_plus_witness:
  "new_media_type ''Application/Vnd.A+B+Json;q=1'' = Inr (make_media_type (Rfc6838_type ''application'') (Rfc6838_tree ''vnd.'') (Rfc6838_subtype ''a+b'')
         (Some (Rfc6838_suffix ''+json'')))
   \<and> drop (Suc (length (type_string (mt_type (make_media_type (Rfc6838_type ''application'') (Rfc6838_tree ''vnd.'') (Rfc6838_subtype ''a+b'')
         (Some (Rfc6838_suffix ''+json''))))) + length (tree_string (mt_tree (make_media_type (Rfc6838_type ''application'') (Rfc6838_tree ''vnd.'') (Rfc6838_subtype ''a+b'')
         (Some (Rfc6838_suffix ''+json''))))))) (takeWhile (\<lambda>c. c \<noteq> CHR '';'') ''Application/Vnd.A+B+Json;q=1'') = ''A+B+Json''
   \<and> CHR ''+'' \<in> set ''A+B+Json''
   \<and> (\<exists>a b. ''A+B+Json'' = a @ CHR ''+'' # b \<and> CHR ''+'' \<notin> set b
        \<and> subtype_string (mt_subtype (make_media_type (Rfc6838_type ''application'') (Rfc6838_tree ''vnd.'') (Rfc6838_subtype ''a+b'')
         (Some (Rfc6838_suffix ''+json'')))) = map to_lowercase a
        \<and> map_option suffix_string (mt_suffix (make_media_type (Rfc6838_type ''application'') (Rfc6838_tree ''vnd.'') (Rfc6838_subtype ''a+b'')
         (Some (Rfc6838_suffix ''+json'')))) = Some (map to_lowercase (CHR ''+'' # b)))
   \<and> subtype_string (mt_subtype (make_media_type (Rfc6838_type ''application'') (Rfc6838_tree ''vnd.'') (Rfc6838_subtype ''a+b'')
         (Some (Rfc6838_suffix ''+json'')))) = ''a+b''
   \<and> map_option suffix_string (mt_suffix (make_media_type (Rfc6838_type ''application'') (Rfc6838_tree ''vnd.'') (Rfc6838_subtype ''a+b'')
         (Some (Rfc6838_suffix ''+json'')))) = Some ''+json''
   \<and> new_media_type ''Text/Plain;a=b+c'' = Inr (make_media_type (Rfc6838_type ''text'') (Rfc6838_tree []) (Rfc6838_subtype ''plain'') None)
   \<and> drop (Suc (length (type_string (mt_type (make_media_type (Rfc6838_type ''text'') (Rfc6838_tree []) (Rfc6838_subtype ''plain'') None))) + length (tree_string (mt_tree (make_media_type (Rfc6838_type ''text'') (Rfc6838_tree []) (Rfc6838_subtype ''plain'') None))))) (takeWhile (\<lambda>c. c \<noteq> CHR '';'') ''Text/Plain;a=b+c'') = ''Plain''
   \<and> CHR ''+'' \<notin> set ''Plain''
   \<and> subtype_string (mt_subtype (make_media_type (Rfc6838_type ''text'') (Rfc6838_tree []) (Rfc6838_subtype ''plain'') None)) = map to_lowercase ''Plain''
   \<and> mt_suffix (make_media_type (Rfc6838_type ''text'') (Rfc6838_tree []) (Rfc6838_subtype ''plain'') None) = None
   \<and> new_nested_media_type ''Application/Vnd.A+B+Json;q=1'' = Inr (make_nested_media_type (Media_top_type ''application'') (Media_tree ''vnd.'') (Media_subtype ''a+b'')
         (Some (Media_suffix ''+json'')))
   \<and> drop (Suc (length (top_type_value (nmt_type (make_nested_media_type (Media_top_type ''application'') (Media_tree ''vnd.'') (Media_subtype ''a+b'')
         (Some (Media_suffix ''+json''))))) + length (tree_value (nmt_tree (make_nested_media_type (Media_top_type ''application'') (Media_tree ''vnd.'') (Media_subtype ''a+b'')
         (Some (Media_suffix ''+json''))))))) (takeWhile (\<lambda>c. c \<noteq> CHR '';'') ''Application/Vnd.A+B+Json;q=1'') = ''A+B+Json''
   \<and> (\<exists>a b. ''A+B+Json'' = a @ CHR ''+'' # b \<and> CHR ''+'' \<notin> set b
        \<and> subtype_value (nmt_subtype (make_nested_media_type (Media_top_type ''application'') (Media_tree ''vnd.'') (Media_subtype ''a+b'')
         (Some (Media_suffix ''+json'')))) = map to_lowercase a
        \<and> map_option suffix_value (nmt_suffix (make_nested_media_type (Media_top_type ''application'') (Media_tree ''vnd.'') (Media_subtype ''a+b'')
         (Some (Media_suffix ''+json'')))) = Some (map to_lowercase (CHR ''+'' # b)))
   \<and> new_nested_media_type ''Text/Plain;a=b+c'' = Inr (make_nested_media_type (Media_top_type ''text'') (Media_tree []) (Media_subtype ''plain'') None)
   \<and> drop (Suc (length (top_type_value (nmt_type (make_nested_media_type (Media_top_type ''text'') (Media_tree []) (Media_subtype ''plain'') None))) + length (tree_value (nmt_tree (make_nested_media_type (Media_top_type ''text'') (Media_tree []) (Media_subtype ''plain'') None))))) (takeWhile (\<lambda>c. c \<noteq> CHR '';'') ''Text/Plain;a=b+c'') = ''Plain''
   \<and> subtype_value (nmt_subtype (make_nested_media_type (Media_top_type ''text'') (Media_tree []) (Media_subtype ''plain'') None)) = map to_lowercase ''Plain''
   \<and> nmt_suffix (make_nested_media_type (Media_top_type ''text'') (Media_tree []) (Media_subtype ''plain'') None) = None
   \<and> CHR ''+'' \<in> set ''x+y+json''
   \<and> (\<exists>a b. ''x+y+json'' = a @ CHR ''+'' # b \<and> CHR ''+'' \<notin> set b
        \<and> parser_subtype ''x+y+json'' = (a, CHR ''+'' # b))
   \<and> parser_subtype ''x+y+json'' = (''x+y'', ''+json'')
   \<and> parser_subtype ''Plain'' = (''Plain'', [])
   \<and> CHR ''+'' \<notin> set (takeWhile (\<lambda>c. c \<noteq> CHR '';'') ''Text/Plain;a=b+c'')"
proof -
  have m1: "new_media_type ''Application/Vnd.A+B+Json;q=1'' = Inr (make_media_type (Rfc6838_type ''application'') (Rfc6838_tree ''vnd.'') (Rfc6838_subtype ''a+b'')
         (Some (Rfc6838_suffix ''+json'')))"
    by code_simp
  have r1: "drop (Suc (length (type_string (mt_type (make_media_type (Rfc6838_type ''application'') (Rfc6838_tree ''vnd.'') (Rfc6838_subtype ''a+b'')
         (Some (Rfc6838_suffix ''+json''))))) + length (tree_string (mt_tree (make_media_type (Rfc6838_type ''application'') (Rfc6838_tree ''vnd.'') (Rfc6838_subtype ''a+b'')
         (Some (Rfc6838_suffix ''+json''))))))) (takeWhile (\<lambda>c. c \<noteq> CHR '';'') ''Application/Vnd.A+B+Json;q=1'') = ''A+B+Json''"
    by code_simp
  have p1: "CHR ''+'' \<in> set ''A+B+Json''"
    by simp
  have c1: "(\<exists>a b. ''A+B+Json'' = a @ CHR ''+'' # b \<and> CHR ''+'' \<notin> set b
        \<and> subtype_string (mt_subtype (make_media_type (Rfc6838_type ''application'') (Rfc6838_tree ''vnd.'') (Rfc6838_subtype ''a+b'')
         (Some (Rfc6838_suffix ''+json'')))) = map to_lowercase a
        \<and> map_option suffix_string (mt_suffix (make_media_type (Rfc6838_type ''application'') (Rfc6838_tree ''vnd.'') (Rfc6838_subtype ''a+b'')
         (Some (Rfc6838_suffix ''+json'')))) = Some (map to_lowercase (CHR ''+'' # b)))"
    using suffix_split_at_last_plus [of "''Application/Vnd.A+B+Json;q=1''" "(make_media_type (Rfc6838_type ''application'') (Rfc6838_tree ''vnd.'') (Rfc6838_subtype ''a+b'') (Some (Rfc6838_suffix ''+json'')))", THEN conjunct1, THEN mp, OF m1, unfolded Let_def r1,
        THEN conjunct1, THEN mp, OF p1] .
  have v1: "subtype_string (mt_subtype (make_media_type (Rfc6838_type ''application'') (Rfc6838_tree ''vnd.'') (Rfc6838_subtype ''a+b'')
         (Some (Rfc6838_suffix ''+json'')))) = ''a+b''"
    by code_simp
  have v1': "map_option suffix_string (mt_suffix (make_media_type (Rfc6838_type ''application'') (Rfc6838_tree ''vnd.'') (Rfc6838_subtype ''a+b'')
         (Some (Rfc6838_suffix ''+json'')))) = Some ''+json''"
    by code_simp
  have m2: "new_media_type ''Text/Plain;a=b+c'' = Inr (make_media_type (Rfc6838_type ''text'') (Rfc6838_tree []) (Rfc6838_subtype ''plain'') None)"
    by code_simp
  have r2: "drop (Suc (length (type_string (mt_type (make_media_type (Rfc6838_type ''text'') (Rfc6838_tree []) (Rfc6838_subtype ''plain'') None))) + length (tree_string (mt_tree (make_media_type (Rfc6838_type ''text'') (Rfc6838_tree []) (Rfc6838_subtype ''plain'') None))))) (takeWhile (\<lambda>c. c \<noteq> CHR '';'') ''Text/Plain;a=b+c'') = ''Plain''"
    by code_simp
  have p2: "CHR ''+'' \<notin> set ''Plain''"
    by simp
  have c2: "subtype_string (mt_subtype (make_media_type (Rfc6838_type ''text'') (Rfc6838_tree []) (Rfc6838_subtype ''plain'') None)) = map to_lowercase ''Plain'' \<and> mt_suffix (make_media_type (Rfc6838_type ''text'') (Rfc6838_tree []) (Rfc6838_subtype ''plain'') None) = None"
    using suffix_split_at_last_plus [of "''Text/Plain;a=b+c''" "(make_media_type (Rfc6838_type ''text'') (Rfc6838_tree []) (Rfc6838_subtype ''plain'') None)", THEN conjunct1, THEN mp, OF m2, unfolded Let_def r2,
        THEN conjunct2, THEN mp, OF p2] .
  have m3: "new_nested_media_type ''Application/Vnd.A+B+Json;q=1'' = Inr (make_nested_media_type (Media_top_type ''application'') (Media_tree ''vnd.'') (Media_subtype ''a+b'')
         (Some (Media_suffix ''+json'')))"
    by code_simp
  have r3: "drop (Suc (length (top_type_value (nmt_type (make_nested_media_type (Media_top_type ''application'') (Media_tree ''vnd.'') (Media_subtype ''a+b'')
         (Some (Media_suffix ''+json''))))) + length (tree_value (nmt_tree (make_nested_media_type (Media_top_type ''application'') (Media_tree ''vnd.'') (Media_subtype ''a+b'')
         (Some (Media_suffix ''+json''))))))) (takeWhile (\<lambda>c. c \<noteq> CHR '';'') ''Application/Vnd.A+B+Json;q=1'') = ''A+B+Json''"
    by code_simp
  have c3: "(\<exists>a b. ''A+B+Json'' = a @ CHR ''+'' # b \<and> CHR ''+'' \<notin> set b
        \<and> subtype_value (nmt_subtype (make_nested_media_type (Media_top_type ''application'') (Media_tree ''vnd.'') (Media_subtype ''a+b'')
         (Some (Media_suffix ''+json'')))) = map to_lowercase a
        \<and> map_option suffix_value (nmt_suffix (make_nested_media_type (Media_top_type ''application'') (Media_tree ''vnd.'') (Media_subtype ''a+b'')
         (Some (Media_suffix ''+json'')))) = Some (map to_lowercase (CHR ''+'' # b)))"
    using suffix_split_at_last_plus [of "''Application/Vnd.A+B+Json;q=1''" _ "(make_nested_media_type (Media_top_type ''application'') (Media_tree ''vnd.'') (Media_subtype ''a+b'') (Some (Media_suffix ''+json'')))", THEN conjunct2, THEN conjunct1, THEN mp, OF m3,
        unfolded Let_def r3, THEN conjunct1, THEN mp, OF p1] .
  have m4: "new_nested_media_type ''Text/Plain;a=b+c'' = Inr (make_nested_media_type (Media_top_type ''text'') (Media_tree []) (Media_subtype ''plain'') None)"
    by code_simp
  have r4: "drop (Suc (length (top_type_value (nmt_type (make_nested_media_type (Media_top_type ''text'') (Media_tree []) (Media_subtype ''plain'') None))) + length (tree_value (nmt_tree (make_nested_media_type (Media_top_type ''text'') (Media_tree []) (Media_subtype ''plain'') None))))) (takeWhile (\<lambda>c. c \<noteq> CHR '';'') ''Text/Plain;a=b+c'') = ''Plain''"
    by code_simp
  have c4: "subtype_value (nmt_subtype (make_nested_media_type (Media_top_type ''text'') (Media_tree []) (Media_subtype ''plain'') None)) = map to_lowercase ''Plain'' \<and> nmt_suffix (make_nested_media_type (Media_top_type ''text'') (Media_tree []) (Media_subtype ''plain'') None) = None"
    using suffix_split_at_last_plus [of "''Text/Plain;a=b+c''" _ "(make_nested_media_type (Media_top_type ''text'') (Media_tree []) (Media_subtype ''plain'') None)", THEN conjunct2, THEN conjunct1, THEN mp, OF m4,
        unfolded Let_def r4, THEN conjunct2, THEN mp, OF p2] .
  have p5: "CHR ''+'' \<in> set ''x+y+json''"
    by simp
  have c5: "(\<exists>a b. ''x+y+json'' = a @ CHR ''+'' # b \<and> CHR ''+'' \<notin> set b
        \<and> parser_subtype ''x+y+json'' = (a, CHR ''+'' # b))"
    using suffix_split_at_last_plus [where r = "''x+y+json''", THEN conjunct2, THEN conjunct2, THEN conjunct1,
        THEN mp, OF p5] .
  have v5: "parser_subtype ''x+y+json'' = (''x+y'', ''+json'')"
    by code_simp
  have c6: "parser_subtype ''Plain'' = (''Plain'', [])"
    using suffix_split_at_last_plus [where r = "''Plain''", THEN conjunct2, THEN conjunct2, THEN conjunct2,
        THEN conjunct1, THEN mp, OF p2] .
  have p7: "CHR ''+'' \<notin> set (takeWhile (\<lambda>c. c \<noteq> CHR '';'') ''Text/Plain;a=b+c'')"
    by simp
  have c7: "mt_suffix (make_media_type (Rfc6838_type ''text'') (Rfc6838_tree []) (Rfc6838_subtype ''plain'') None) = None"
    using suffix_split_at_last_plus [of "''Text/Plain;a=b+c''" "(make_media_type (Rfc6838_type ''text'') (Rfc6838_tree []) (Rfc6838_subtype ''plain'') None)", THEN conjunct2, THEN conjunct2, THEN conjunct2,
        THEN conjunct2, THEN conjunct2, THEN conjunct2, THEN conjunct1, THEN mp, OF p7, THEN mp, OF m2] .
  show ?thesis
    by (intro conjI m1 r1 p1 c1 v1 v1' m2 r2 p2 c2 [THEN conjunct1] c7 m3 r3 c3 m4 r4 c4 [THEN conjunct1] c4 [THEN conjunct2] p5 c5 v5 c6 p7)
qed

text \<open>
  C10. A trailing plus sign is never a suffix boundary. When the portion of the input
  before the first semicolon ends with a plus sign, construction fails in both
  encodings. Where the delimiter steps pass, the slice that reaches the split ends with
  that plus sign, the suffix candidate is the single character \<open>+\<close>, and the suffix
  constructor rejects it for its length.
\<close>

theorem trailing_plus_fails:
  assumes "takeWhile (\<lambda>c. c \<noteq> CHR '';'') s = u @ ''+''"
  shows "isl (new_media_type s) \<and> isl (new_nested_media_type s)
    \<and> parser_subtype (v @ ''+'') = (v, ''+'')
    \<and> new_suffix ''+'' =
        Inl (Parsing_error ''media type: suffix: lenght required to be [2..127] characters'')"
  using parser_trailing_plus [OF assms] isl_nested_parser [of s] parser_subtype_trailing_plus [of v]
    new_suffix_plus
  by (simp only: new_media_type_def new_nested_media_type_def simp_thms)

theorem trailing_plus_fails_witness:
  "takeWhile (\<lambda>c. c \<noteq> CHR '';'') ''application/vnd.api+;q=1'' = ''application/vnd.api'' @ ''+''
   \<and> isl (new_media_type ''application/vnd.api+;q=1'')
   \<and> isl (new_nested_media_type ''application/vnd.api+;q=1'')
   \<and> new_media_type ''application/vnd.api+;q=1'' =
       Inl (Parsing_error ''media type: suffix: lenght required to be [2..127] characters'')"
proof -
  have a: "takeWhile (\<lambda>c. c \<noteq> CHR '';'') ''application/vnd.api+;q=1'' = ''application/vnd.api'' @ ''+''"
    by simp
  note r = trailing_plus_fails [OF a]
  have b: "new_media_type ''application/vnd.api+;q=1'' =
       Inl (Parsing_error ''media type: suffix: lenght required to be [2..127] characters'')"
    by code_simp
  show ?thesis by (intro conjI a b r [THEN conjunct1] r [THEN conjunct2, THEN conjunct1])
qed

lemma list_all_replicate_iff: "list_all P (replicate n x) \<longleftrightarrow> n = 0 \<or> P x"
  by (induction n) auto

lemma new_parameter_name_Inr:
  "new_parameter_name v = Inr t \<Longrightarrow> parameter_name_string t = map to_lowercase v"
  by (auto simp: new_parameter_name_def split: if_splits)

section \<open>Length boundaries\<close>

text \<open>
  C6. Length boundaries of the component validators. A string of exactly 127 characters
  that meets the validator's other rules is accepted, and every string of 128 characters
  is rejected with the validator's length error. The empty string is rejected by the
  top-level type and subtype constructors and accepted by the tree constructor, where it
  is the standard tree. The same bounds hold for the suffix, parameter name and parameter
  value constructors.
\<close>

theorem length_boundaries:
  "(length v = 127 \<and> is_alphanumeric (hd v) \<and> is_restricted_name v \<longrightarrow>
      new_type v = Inr (Rfc6838_type (map to_lowercase v))
      \<and> new_subtype v = Inr (Rfc6838_subtype (map to_lowercase v))
      \<and> new_parameter_name v = Inr (Parameter_name (map to_lowercase v)))
   \<and> (length v = 127 \<and> is_alphanumeric (hd v) \<and> last v = CHR ''.''
        \<and> is_modified_restricted_name (butlast v) \<longrightarrow>
      new_tree v = Inr (Rfc6838_tree (map to_lowercase v)))
   \<and> (length v = 127 \<and> hd v = CHR ''+'' \<and> is_alphanumeric (hd (tl v))
        \<and> is_modified_restricted_name (tl v) \<longrightarrow>
      new_suffix v = Inr (Rfc6838_suffix (map to_lowercase v)))
   \<and> (length v = 127 \<and> hd v \<noteq> CHR 0x22 \<and> is_restricted_name v \<longrightarrow>
      new_parameter_value v = Inr (Parameter_value v))
   \<and> (length v = 127 \<and> hd v = CHR 0x22 \<and> last v = CHR 0x22 \<and> CHR 0x22 \<notin> set (inner_string v) \<longrightarrow>
      new_parameter_value v = Inr (Parameter_value v))
   \<and> (length v = 128 \<longrightarrow>
      new_type v = Inl (Parsing_error ''media type: top-level type: lenght required to be [1..127] characters'')
      \<and> new_tree v = Inl (Parsing_error ''media type: tree: lenght required to be [2..127] characters'')
      \<and> new_subtype v = Inl (Parsing_error ''media type: subtype: lenght required to be [1..127] characters'')
      \<and> new_suffix v = Inl (Parsing_error ''media type: suffix: lenght required to be [2..127] characters'')
      \<and> new_parameter_name v =
          Inl (Parsing_error ''media type: parameter name: lenght required to be [1..127] characters'')
      \<and> new_parameter_value v =
          Inl (Parsing_error ''media type: parameter value: lenght required to be [1..127] characters''))
   \<and> new_type [] = Inl (Parsing_error ''media type: top-level type: lenght required to be [1..127] characters'')
   \<and> new_subtype [] = Inl (Parsing_error ''media type: subtype: lenght required to be [1..127] characters'')
   \<and> new_tree [] = Inr (Rfc6838_tree []) \<and> standard (Rfc6838_tree [])"
proof (intro conjI impI)
  assume "length v = 127 \<and> is_alphanumeric (hd v) \<and> is_restricted_name v"
  then have h: "v \<noteq> []" "\<not> length v > 127" "is_alphanumeric (hd v)" "is_restricted_name v" by auto
  from h show "new_type v = Inr (Rfc6838_type (map to_lowercase v))" by (simp add: new_type_def)
  from h show "new_subtype v = Inr (Rfc6838_subtype (map to_lowercase v))"
    by (simp add: new_subtype_def)
  from h show "new_parameter_name v = Inr (Parameter_name (map to_lowercase v))"
    by (simp add: new_parameter_name_def)
next
  assume "length v = 127 \<and> is_alphanumeric (hd v) \<and> last v = CHR ''.''
        \<and> is_modified_restricted_name (butlast v)"
  then have "v \<noteq> []" "\<not> length v < 2" "\<not> length v > 127" "is_alphanumeric (hd v)" "last v = CHR ''.''"
    "is_modified_restricted_name (butlast v)" by auto
  then show "new_tree v = Inr (Rfc6838_tree (map to_lowercase v))" by (simp add: new_tree_def)
next
  assume "length v = 127 \<and> hd v = CHR ''+'' \<and> is_alphanumeric (hd (tl v))
        \<and> is_modified_restricted_name (tl v)"
  then have "\<not> length v < 2" "\<not> length v > 127" "hd v = CHR ''+''" "is_alphanumeric (hd (tl v))"
    "is_modified_restricted_name (tl v)" by auto
  then show "new_suffix v = Inr (Rfc6838_suffix (map to_lowercase v))"
    by (simp add: new_suffix_def Let_def)
next
  assume "length v = 127 \<and> hd v \<noteq> CHR 0x22 \<and> is_restricted_name v"
  then have "v \<noteq> []" "\<not> length v > 127" "hd v \<noteq> CHR 0x22" "is_restricted_name v" by auto
  then show "new_parameter_value v = Inr (Parameter_value v)" by (simp add: new_parameter_value_def)
next
  assume "length v = 127 \<and> hd v = CHR 0x22 \<and> last v = CHR 0x22 \<and> CHR 0x22 \<notin> set (inner_string v)"
  then have "v \<noteq> []" "\<not> length v > 127" "hd v = CHR 0x22" "last v = CHR 0x22" "length v \<noteq> 1"
    "length v \<noteq> 2" "CHR 0x22 \<notin> set (inner_string v)" by auto
  then show "new_parameter_value v = Inr (Parameter_value v)" by (simp add: new_parameter_value_def)
next
  assume l: "length v = 128"
  then have h: "v \<noteq> []" "length v > 127" by auto
  from h show "new_type v = Inl (Parsing_error ''media type: top-level type: lenght required to be [1..127] characters'')"
    by (simp add: new_type_def)
  from h show "new_tree v = Inl (Parsing_error ''media type: tree: lenght required to be [2..127] characters'')"
    by (simp add: new_tree_def)
  from h show "new_subtype v = Inl (Parsing_error ''media type: subtype: lenght required to be [1..127] characters'')"
    by (simp add: new_subtype_def)
  from h show "new_suffix v = Inl (Parsing_error ''media type: suffix: lenght required to be [2..127] characters'')"
    by (simp add: new_suffix_def)
  from h show "new_parameter_name v =
          Inl (Parsing_error ''media type: parameter name: lenght required to be [1..127] characters'')"
    by (simp add: new_parameter_name_def)
  from h show "new_parameter_value v =
          Inl (Parsing_error ''media type: parameter value: lenght required to be [1..127] characters'')"
    by (simp add: new_parameter_value_def)
next
  show "new_type [] = Inl (Parsing_error ''media type: top-level type: lenght required to be [1..127] characters'')"
    by (simp add: new_type_def)
  show "new_subtype [] = Inl (Parsing_error ''media type: subtype: lenght required to be [1..127] characters'')"
    by (simp add: new_subtype_def)
  show "new_tree [] = Inr (Rfc6838_tree [])" by (simp add: new_tree_def)
  show "standard (Rfc6838_tree [])" by (simp add: standard_def)
qed

theorem length_boundaries_witness:
  "(length (replicate 127 CHR ''A'') = 127 \<and> is_alphanumeric (hd (replicate 127 CHR ''A''))
      \<and> is_restricted_name (replicate 127 CHR ''A''))
   \<and> (new_type (replicate 127 CHR ''A'') = Inr (Rfc6838_type (map to_lowercase (replicate 127 CHR ''A'')))
      \<and> new_subtype (replicate 127 CHR ''A'') = Inr (Rfc6838_subtype (map to_lowercase (replicate 127 CHR ''A'')))
      \<and> new_parameter_name (replicate 127 CHR ''A'') =
          Inr (Parameter_name (map to_lowercase (replicate 127 CHR ''A''))))
   \<and> map to_lowercase (replicate 127 CHR ''A'') = replicate 127 CHR ''a''
   \<and> (length (replicate 126 CHR ''v'' @ ''.'') = 127 \<and> is_alphanumeric (hd (replicate 126 CHR ''v'' @ ''.''))
      \<and> last (replicate 126 CHR ''v'' @ ''.'') = CHR ''.''
      \<and> is_modified_restricted_name (butlast (replicate 126 CHR ''v'' @ ''.'')))
   \<and> new_tree (replicate 126 CHR ''v'' @ ''.'') =
        Inr (Rfc6838_tree (map to_lowercase (replicate 126 CHR ''v'' @ ''.'')))
   \<and> (length (CHR ''+'' # replicate 126 CHR ''x'') = 127 \<and> hd (CHR ''+'' # replicate 126 CHR ''x'') = CHR ''+''
      \<and> is_alphanumeric (hd (tl (CHR ''+'' # replicate 126 CHR ''x'')))
      \<and> is_modified_restricted_name (tl (CHR ''+'' # replicate 126 CHR ''x'')))
   \<and> new_suffix (CHR ''+'' # replicate 126 CHR ''x'') =
        Inr (Rfc6838_suffix (map to_lowercase (CHR ''+'' # replicate 126 CHR ''x'')))
   \<and> (length (replicate 127 CHR ''A'') = 127 \<and> hd (replicate 127 CHR ''A'') \<noteq> CHR 0x22
      \<and> is_restricted_name (replicate 127 CHR ''A''))
   \<and> new_parameter_value (replicate 127 CHR ''A'') = Inr (Parameter_value (replicate 127 CHR ''A''))
   \<and> (length (CHR 0x22 # replicate 125 CHR ''q'' @ [CHR 0x22]) = 127
      \<and> hd (CHR 0x22 # replicate 125 CHR ''q'' @ [CHR 0x22]) = CHR 0x22
      \<and> last (CHR 0x22 # replicate 125 CHR ''q'' @ [CHR 0x22]) = CHR 0x22
      \<and> CHR 0x22 \<notin> set (inner_string (CHR 0x22 # replicate 125 CHR ''q'' @ [CHR 0x22])))
   \<and> new_parameter_value (CHR 0x22 # replicate 125 CHR ''q'' @ [CHR 0x22]) =
        Inr (Parameter_value (CHR 0x22 # replicate 125 CHR ''q'' @ [CHR 0x22]))
   \<and> length (replicate 128 CHR ''a'') = 128
   \<and> new_type (replicate 128 CHR ''a'') =
        Inl (Parsing_error ''media type: top-level type: lenght required to be [1..127] characters'')"
proof -
  have a: "length (replicate 127 CHR ''A'') = 127 \<and> is_alphanumeric (hd (replicate 127 CHR ''A''))
      \<and> is_restricted_name (replicate 127 CHR ''A'')"
    by (simp add: hd_replicate is_restricted_name_def list_all_replicate_iff ascii_defs)
  have a0: "to_lowercase CHR ''A'' = CHR ''a''" by code_simp
  have a': "map to_lowercase (replicate 127 CHR ''A'') = replicate 127 CHR ''a''"
    by (simp add: a0)
  have b: "length (replicate 126 CHR ''v'' @ ''.'') = 127 \<and> is_alphanumeric (hd (replicate 126 CHR ''v'' @ ''.''))
      \<and> last (replicate 126 CHR ''v'' @ ''.'') = CHR ''.''
      \<and> is_modified_restricted_name (butlast (replicate 126 CHR ''v'' @ ''.''))"
    by (simp add: hd_append hd_replicate is_modified_restricted_name_def list_all_replicate_iff ascii_defs)
  have c: "length (CHR ''+'' # replicate 126 CHR ''x'') = 127 \<and> hd (CHR ''+'' # replicate 126 CHR ''x'') = CHR ''+''
      \<and> is_alphanumeric (hd (tl (CHR ''+'' # replicate 126 CHR ''x'')))
      \<and> is_modified_restricted_name (tl (CHR ''+'' # replicate 126 CHR ''x''))"
    by (simp add: hd_replicate is_modified_restricted_name_def list_all_replicate_iff ascii_defs)
  have d: "length (replicate 127 CHR ''A'') = 127 \<and> hd (replicate 127 CHR ''A'') \<noteq> CHR 0x22
      \<and> is_restricted_name (replicate 127 CHR ''A'')"
    by (simp add: hd_replicate is_restricted_name_def list_all_replicate_iff ascii_defs)
  have e: "length (CHR 0x22 # replicate 125 CHR ''q'' @ [CHR 0x22]) = 127
      \<and> hd (CHR 0x22 # replicate 125 CHR ''q'' @ [CHR 0x22]) = CHR 0x22
      \<and> last (CHR 0x22 # replicate 125 CHR ''q'' @ [CHR 0x22]) = CHR 0x22
      \<and> CHR 0x22 \<notin> set (inner_string (CHR 0x22 # replicate 125 CHR ''q'' @ [CHR 0x22]))"
    by (simp add: inner_string_def butlast_append)
  have f: "length (replicate 128 CHR ''a'') = 128" by simp
  note A = length_boundaries [of "replicate 127 CHR ''A''", THEN conjunct1, THEN mp, OF a]
  note B = length_boundaries [of "replicate 126 CHR ''v'' @ ''.''", THEN conjunct2, THEN conjunct1,
      THEN mp, OF b]
  note C = length_boundaries [of "CHR ''+'' # replicate 126 CHR ''x''", THEN conjunct2, THEN conjunct2,
      THEN conjunct1, THEN mp, OF c]
  note D = length_boundaries [of "replicate 127 CHR ''A''", THEN conjunct2, THEN conjunct2,
      THEN conjunct2, THEN conjunct1, THEN mp, OF d]
  note E = length_boundaries [of "CHR 0x22 # replicate 125 CHR ''q'' @ [CHR 0x22]", THEN conjunct2,
      THEN conjunct2, THEN conjunct2, THEN conjunct2, THEN conjunct1, THEN mp, OF e]
  note F = length_boundaries [of "replicate 128 CHR ''a''", THEN conjunct2, THEN conjunct2,
      THEN conjunct2, THEN conjunct2, THEN conjunct2, THEN conjunct1, THEN mp, OF f, THEN conjunct1]
  show ?thesis by (intro conjI a a' b c d e f A B C D E F)
qed

section \<open>Removing the suffix\<close>

text \<open>
  C8. \<open>without_suffix\<close> clears only the suffix. In both variants (the copying one on
  \<open>const&\<close> and the consuming one on \<open>&&\<close>) the result equals the media type constructed
  from the value's type, tree and subtype with no suffix: the three fields are unchanged,
  the suffix is absent, and the canonical string of the result is the type, a slash, the
  tree and the subtype, with no suffix part.
\<close>

theorem without_suffix_clears_only_suffix:
  "without_suffix m = make_media_type (mt_type m) (mt_tree m) (mt_subtype m) None
   \<and> without_suffix_rvalue m = make_media_type (mt_type m) (mt_tree m) (mt_subtype m) None
   \<and> mt_type (without_suffix m) = mt_type m \<and> mt_tree (without_suffix m) = mt_tree m
   \<and> mt_subtype (without_suffix m) = mt_subtype m \<and> mt_suffix (without_suffix m) = None
   \<and> mt_type (without_suffix_rvalue m) = mt_type m \<and> mt_tree (without_suffix_rvalue m) = mt_tree m
   \<and> mt_subtype (without_suffix_rvalue m) = mt_subtype m \<and> mt_suffix (without_suffix_rvalue m) = None
   \<and> media_type_string (without_suffix m) =
       type_string (mt_type m) @ ''/'' @ tree_string (mt_tree m) @ subtype_string (mt_subtype m)
   \<and> media_type_string (without_suffix_rvalue m) =
       type_string (mt_type m) @ ''/'' @ tree_string (mt_tree m) @ subtype_string (mt_subtype m)"
  by (simp add: without_suffix_def without_suffix_rvalue_def make_media_type_def media_type_string_def)

theorem without_suffix_clears_only_suffix_witness:
  "new_media_type ''application/vnd.api+json'' =
     Inr (make_media_type (Rfc6838_type ''application'') (Rfc6838_tree ''vnd.'')
           (Rfc6838_subtype ''api'') (Some (Rfc6838_suffix ''+json'')))
   \<and> without_suffix (make_media_type (Rfc6838_type ''application'') (Rfc6838_tree ''vnd.'')
           (Rfc6838_subtype ''api'') (Some (Rfc6838_suffix ''+json'')))
     = make_media_type (Rfc6838_type ''application'') (Rfc6838_tree ''vnd.'') (Rfc6838_subtype ''api'') None
   \<and> without_suffix_rvalue (make_media_type (Rfc6838_type ''application'') (Rfc6838_tree ''vnd.'')
           (Rfc6838_subtype ''api'') (Some (Rfc6838_suffix ''+json'')))
     = make_media_type (Rfc6838_type ''application'') (Rfc6838_tree ''vnd.'') (Rfc6838_subtype ''api'') None
   \<and> media_type_string (make_media_type (Rfc6838_type ''application'') (Rfc6838_tree ''vnd.'')
           (Rfc6838_subtype ''api'') None) = ''application/vnd.api''"
proof -
  let ?m = "make_media_type (Rfc6838_type ''application'') (Rfc6838_tree ''vnd.'')
           (Rfc6838_subtype ''api'') (Some (Rfc6838_suffix ''+json''))"
  have a: "new_media_type ''application/vnd.api+json'' = Inr ?m" by code_simp
  have f: "mt_type ?m = Rfc6838_type ''application''" "mt_tree ?m = Rfc6838_tree ''vnd.''"
    "mt_subtype ?m = Rfc6838_subtype ''api''"
    by (simp_all add: make_media_type_def)
  have b: "without_suffix ?m =
      make_media_type (Rfc6838_type ''application'') (Rfc6838_tree ''vnd.'') (Rfc6838_subtype ''api'') None"
    using without_suffix_clears_only_suffix [of ?m, THEN conjunct1] unfolding f .
  have c: "without_suffix_rvalue ?m =
      make_media_type (Rfc6838_type ''application'') (Rfc6838_tree ''vnd.'') (Rfc6838_subtype ''api'') None"
    using without_suffix_clears_only_suffix [of ?m, THEN conjunct2, THEN conjunct1] unfolding f .
  have d: "media_type_string (make_media_type (Rfc6838_type ''application'') (Rfc6838_tree ''vnd.'')
           (Rfc6838_subtype ''api'') None) = ''application/vnd.api''" by code_simp
  show ?thesis by (intro conjI a b c d)
qed

section \<open>Equality of parameter values\<close>

lemma new_parameter_value_Inr:
  assumes "new_parameter_value a = Inr p"
  shows "backend p = a \<and> a \<noteq> []
    \<and> (if hd a = CHR 0x22 then a = CHR 0x22 # value_view p @ [CHR 0x22] \<and> value_view p \<noteq> []
          \<and> CHR 0x22 \<notin> set (value_view p)
        else value_view p = a \<and> is_restricted_name a)"
proof (cases "hd a = CHR 0x22")
  case True
  with assms have p: "p = Parameter_value a" and ne: "a \<noteq> []" and l: "last a = CHR 0x22"
    and len: "length a \<noteq> 1" "length a \<noteq> 2" and q: "CHR 0x22 \<notin> set (inner_string a)"
    by (auto simp: new_parameter_value_def split: if_splits)
  from ne True obtain r where a: "a = CHR 0x22 # r" by (cases a) auto
  with len have r: "r \<noteq> []" by auto
  with a l have "last r = CHR 0x22" by simp
  with r have rr: "r = butlast r @ [CHR 0x22]" by (metis append_butlast_last_id)
  have v: "value_view p = butlast r" by (simp add: value_view_def p a inner_string_def)
  from rr a have "a = CHR 0x22 # value_view p @ [CHR 0x22]" by (simp add: v)
  moreover from len a rr have "value_view p \<noteq> []" unfolding v by (cases "butlast r") auto
  moreover from q have "CHR 0x22 \<notin> set (value_view p)" by (simp add: v a inner_string_def)
  ultimately show ?thesis using True p ne by simp
next
  case False
  with assms have p: "p = Parameter_value a" and ne: "a \<noteq> []" and rn: "is_restricted_name a"
    by (auto simp: new_parameter_value_def split: if_splits)
  from False ne have "value_view p = a" by (cases a) (auto simp: value_view_def p)
  with False p ne rn show ?thesis by simp
qed

text \<open>
  C9. Equality of parameter values is on the unquoted logical value. For two
  successfully constructed values, \<open>operator==\<close> holds exactly when their views are the
  same string, where the view of a value built from a quoted string \<open>q @ inner @ q\<close> (\<open>q\<close>
  the double quote) is \<open>inner\<close> and the view of a value built from a bare string is the
  whole string; the backing string is the input unchanged. The values built from \<open>foo\<close>
  and from the quoted \<open>foo\<close> are equal, though their backing strings differ.
\<close>

theorem parameter_value_equality:
  assumes "new_parameter_value a = Inr p" and "new_parameter_value b = Inr q"
  shows "(parameter_value_eq p q \<longleftrightarrow> value_view p = value_view q)
    \<and> backend p = a \<and> backend q = b
    \<and> (if hd a = CHR 0x22 then a = CHR 0x22 # value_view p @ [CHR 0x22] else a = value_view p)
    \<and> (if hd b = CHR 0x22 then b = CHR 0x22 # value_view q @ [CHR 0x22] else b = value_view q)
    \<and> new_parameter_value ''foo'' = Inr (Parameter_value ''foo'')
    \<and> new_parameter_value (CHR 0x22 # ''foo'' @ [CHR 0x22]) =
        Inr (Parameter_value (CHR 0x22 # ''foo'' @ [CHR 0x22]))
    \<and> parameter_value_eq (Parameter_value ''foo'') (Parameter_value (CHR 0x22 # ''foo'' @ [CHR 0x22]))
    \<and> Parameter_value ''foo'' \<noteq> Parameter_value (CHR 0x22 # ''foo'' @ [CHR 0x22])"
proof -
  have e1: "new_parameter_value ''foo'' = Inr (Parameter_value ''foo'')" by code_simp
  have e2: "new_parameter_value (CHR 0x22 # ''foo'' @ [CHR 0x22]) =
        Inr (Parameter_value (CHR 0x22 # ''foo'' @ [CHR 0x22]))" by code_simp
  have e3: "parameter_value_eq (Parameter_value ''foo'') (Parameter_value (CHR 0x22 # ''foo'' @ [CHR 0x22]))"
    by code_simp
  have e4: "Parameter_value ''foo'' \<noteq> Parameter_value (CHR 0x22 # ''foo'' @ [CHR 0x22])" by simp
  have g: "parameter_value_eq p q \<longleftrightarrow> value_view p = value_view q"
    by (simp add: parameter_value_eq_def)
  from new_parameter_value_Inr [OF assms(1)]
  have pa: "backend p = a"
    "if hd a = CHR 0x22 then a = CHR 0x22 # value_view p @ [CHR 0x22] else a = value_view p"
    by (auto split: if_splits)
  from new_parameter_value_Inr [OF assms(2)]
  have qb: "backend q = b"
    "if hd b = CHR 0x22 then b = CHR 0x22 # value_view q @ [CHR 0x22] else b = value_view q"
    by (auto split: if_splits)
  show ?thesis by (intro conjI g pa qb e1 e2 e3 e4)
qed

theorem parameter_value_equality_witness:
  "new_parameter_value (CHR 0x22 # ''a b'' @ [CHR 0x22]) = Inr (Parameter_value (CHR 0x22 # ''a b'' @ [CHR 0x22]))
   \<and> new_parameter_value ''utf-8'' = Inr (Parameter_value ''utf-8'')
   \<and> hd (CHR 0x22 # ''a b'' @ [CHR 0x22]) = CHR 0x22
   \<and> CHR 0x22 # ''a b'' @ [CHR 0x22] =
       CHR 0x22 # value_view (Parameter_value (CHR 0x22 # ''a b'' @ [CHR 0x22])) @ [CHR 0x22]
   \<and> hd ''utf-8'' \<noteq> CHR 0x22
   \<and> ''utf-8'' = value_view (Parameter_value ''utf-8'')
   \<and> (parameter_value_eq (Parameter_value (CHR 0x22 # ''a b'' @ [CHR 0x22])) (Parameter_value ''utf-8'')
        \<longleftrightarrow> value_view (Parameter_value (CHR 0x22 # ''a b'' @ [CHR 0x22])) = value_view (Parameter_value ''utf-8''))"
proof -
  have a: "new_parameter_value (CHR 0x22 # ''a b'' @ [CHR 0x22]) =
      Inr (Parameter_value (CHR 0x22 # ''a b'' @ [CHR 0x22]))" by code_simp
  have b: "new_parameter_value ''utf-8'' = Inr (Parameter_value ''utf-8'')" by code_simp
  have c: "hd (CHR 0x22 # ''a b'' @ [CHR 0x22]) = CHR 0x22" by simp
  have d: "hd ''utf-8'' \<noteq> CHR 0x22" by simp
  note r = parameter_value_equality [OF a b]
  have e: "CHR 0x22 # ''a b'' @ [CHR 0x22] =
       CHR 0x22 # value_view (Parameter_value (CHR 0x22 # ''a b'' @ [CHR 0x22])) @ [CHR 0x22]"
    using r [THEN conjunct2, THEN conjunct2, THEN conjunct2, THEN conjunct1] c by (simp only: if_True)
  have f: "''utf-8'' = value_view (Parameter_value ''utf-8'')"
    using r [THEN conjunct2, THEN conjunct2, THEN conjunct2, THEN conjunct2, THEN conjunct1] d
    by (simp only: if_False)
  show ?thesis by (intro conjI a b c d e f r [THEN conjunct1])
qed

end
